theory Spec2Isabelle
  imports Main "HOL-Library.Sublist" "HOL-Library.List_Lexorder" "HOL-Library.Char_ord"
begin

section \<open>Values, result rows and the configuration cache\<close>

text \<open>
  The module \<^verbatim>\<open>xig.js\<close> keeps three pieces of module state: the database handle
  \<^verbatim>\<open>xigDb\<close>, the cache object \<^verbatim>\<open>configCache\<close> and the flag
  \<^verbatim>\<open>cacheLoadInProgress\<close>. This section models the cache object and its read
  functions. A text column of a result row is a \<open>string option\<close>, \<open>None\<close> being SQL
  NULL; a JavaScript string is a \<open>string\<close>. Log messages are not modelled.
\<close>

datatype err = FetchFailure | ValidationFailure | SwapFailure | OpenFailure
  | QueryFailure | TypeError

record package =
  PackageKey :: int
  PkgId :: "string option"
  PID :: "string option"
  Web :: "string option"
  Canonical :: "string option"

text \<open>
  An entry of \<^verbatim>\<open>configCache.maps\<close> is a JavaScript \<^verbatim>\<open>Set\<close> or \<^verbatim>\<open>Map\<close>; both keep
  insertion order, so they are lists here.
\<close>

datatype table =
    SetTable "string option list"
  | MapTable "(string option \<times> string option) list"
  | PackageMap "(int \<times> package) list"
  | PackageIdMap "(string \<times> package) list"

text \<open>
  The cache object. \<^verbatim>\<open>maps\<close> is a JavaScript object used as a dictionary from table
  names to tables, an association list in the order the properties were added;
  \<^verbatim>\<open>lastUpdated\<close> is a time stamp.
\<close>

record cache =
  loaded :: bool
  lastUpdated :: "nat option"
  maps :: "(string \<times> table) list"

definition initialCache :: cache where
  "initialCache = \<lparr> loaded = False, lastUpdated = None, maps = [] \<rparr>"

text \<open>\<^verbatim>\<open>Set.prototype.add\<close> and \<^verbatim>\<open>Map.prototype.set\<close>.\<close>

definition setAdd :: "'a list \<Rightarrow> 'a \<Rightarrow> 'a list" where
  "setAdd xs x = (if x \<in> set xs then xs else xs @ [x])"

fun mapSet :: "('k \<times> 'v) list \<Rightarrow> 'k \<Rightarrow> 'v \<Rightarrow> ('k \<times> 'v) list" where
  "mapSet [] k v = [(k, v)]"
| "mapSet ((k', v') # kvs) k v =
     (if k' = k then (k, v) # kvs else (k', v') # mapSet kvs k v)"

text \<open>
  \<^verbatim>\<open>hasCachedValue(tableName, value)\<close>: false unless the cache is loaded, the table
  exists and is a \<^verbatim>\<open>Set\<close>; for a \<^verbatim>\<open>Map\<close> it returns false.
\<close>

definition hasCachedValue :: "cache \<Rightarrow> string \<Rightarrow> string \<Rightarrow> bool" where
  "hasCachedValue c tableName v =
     (if \<not> loaded c then False
      else (case map_of (maps c) tableName of
              None \<Rightarrow> False
            | Some (SetTable xs) \<Rightarrow> Some v \<in> set xs
            | Some _ \<Rightarrow> False))"

definition hasTerminologySource :: "cache \<Rightarrow> string \<Rightarrow> bool" where
  "hasTerminologySource c sourceCode = hasCachedValue c ''txSources'' sourceCode"

definition getCachedTable :: "cache \<Rightarrow> string \<Rightarrow> table option" where
  "getCachedTable c tableName = (if \<not> loaded c then None else map_of (maps c) tableName)"

text \<open>
  \<^verbatim>\<open>getCachedSet\<close> returns \<^verbatim>\<open>Array.from(cache).sort()\<close>: the default sort compares
  the elements as strings, \<^verbatim>\<open>null\<close> as \<^verbatim>\<open>"null"\<close>, and is stable.
\<close>

definition jsString :: "string option \<Rightarrow> string" where
  "jsString v = (case v of None \<Rightarrow> ''null'' | Some s \<Rightarrow> s)"

definition getCachedSet :: "cache \<Rightarrow> string \<Rightarrow> string option list" where
  "getCachedSet c tableName =
     (case getCachedTable c tableName of
        Some (SetTable xs) \<Rightarrow> sort_key jsString xs
      | _ \<Rightarrow> [])"

section \<open>The filter compiler\<close>

text \<open>
  The facets of a query, as \<^verbatim>\<open>buildSqlFilter\<close> destructures them from
  \<^verbatim>\<open>queryParams\<close>. A facet is a string or absent (\<^verbatim>\<open>undefined\<close>); the route handler
  passes \<^verbatim>\<open>''\<close> for an absent one. The fields \<open>type_f\<close> and \<open>text_f\<close> are the
  source's \<^verbatim>\<open>type\<close> and \<^verbatim>\<open>text\<close>.
\<close>

record queryParams =
  realm :: "string option"
  auth :: "string option"
  ver :: "string option"
  type_f :: "string option"
  rt :: "string option"
  text_f :: "string option"

text \<open>The test \<^verbatim>\<open>x && x !== ''\<close>.\<close>

definition nonEmpty :: "string option \<Rightarrow> bool" where
  "nonEmpty v = (case v of None \<Rightarrow> False | Some s \<Rightarrow> s \<noteq> [])"

abbreviation sq :: char where
  "sq \<equiv> CHR 0x27"

definition quoted :: "string \<Rightarrow> string" where
  "quoted s = sq # s @ [sq]"

text \<open>\<^verbatim>\<open>str.replace(/'/g, "''")\<close>: every single quote becomes two.\<close>

fun doubleQuotes :: "string \<Rightarrow> string" where
  "doubleQuotes [] = []"
| "doubleQuotes (c # cs) = (if c = sq then [sq, sq] else [c]) @ doubleQuotes cs"

definition sqlEscapeString :: "string option \<Rightarrow> string" where
  "sqlEscapeString str =
     (case str of None \<Rightarrow> [] | Some s \<Rightarrow> if s = [] then [] else doubleQuotes s)"

text \<open>
  \<^verbatim>\<open>buildSqlFilter\<close> appends one fragment after the other to \<^verbatim>\<open>filter\<close>; each
  of the five blocks of the source is a function giving the fragment it appends.
\<close>

definition realmFilter :: "queryParams \<Rightarrow> string" where
  "realmFilter q =
     (if nonEmpty (realm q) then '' and realm = '' @ quoted (sqlEscapeString (realm q))
      else [])"

definition authFilter :: "queryParams \<Rightarrow> string" where
  "authFilter q =
     (if nonEmpty (auth q) then '' and authority = '' @ quoted (sqlEscapeString (auth q))
      else [])"

definition verFilter :: "queryParams \<Rightarrow> string" where
  "verFilter q =
     (if nonEmpty (ver q) then
        (if ver q = Some ''R2'' then '' and R2 = 1''
         else if ver q = Some ''R2B'' then '' and R2B = 1''
         else if ver q = Some ''R3'' then '' and R3 = 1''
         else if ver q = Some ''R4'' then '' and R4 = 1''
         else if ver q = Some ''R4B'' then '' and R4B = 1''
         else if ver q = Some ''R5'' then '' and R5 = 1''
         else if ver q = Some ''R6'' then '' and R6 = 1''
         else [])
      else [])"

definition categoryFilter :: "string \<Rightarrow> string option \<Rightarrow> string" where
  "categoryFilter mode v =
     '' and ResourceKey in (Select ResourceKey from Categories where Mode = '' @ mode
       @ '' and Code = '' @ quoted (sqlEscapeString v) @ '')''"

definition typeFilter :: "cache \<Rightarrow> queryParams \<Rightarrow> string" where
  "typeFilter c q =
     (if type_f q = Some ''cs'' then
        '' and ResourceType = '' @ quoted ''CodeSystem''
      else if type_f q = Some ''rp'' then
        '' and ResourceType = '' @ quoted ''StructureDefinition''
          @ '' and kind = '' @ quoted ''resource''
          @ (if nonEmpty (rt q) \<and> hasCachedValue c ''profileResources'' (the (rt q))
             then '' and Type = '' @ quoted (sqlEscapeString (rt q)) else [])
      else if type_f q = Some ''dp'' then
        '' and ResourceType = '' @ quoted ''StructureDefinition''
          @ '' and (kind = '' @ quoted ''complex-type''
          @ '' or kind = '' @ quoted ''primitive-type'' @ '')''
          @ (if nonEmpty (rt q) \<and> hasCachedValue c ''profileTypes'' (the (rt q))
             then '' and Type = '' @ quoted (sqlEscapeString (rt q)) else [])
      else if type_f q = Some ''lm'' then
        '' and ResourceType = '' @ quoted ''StructureDefinition''
          @ '' and kind = '' @ quoted ''logical''
      else if type_f q = Some ''ext'' then
        '' and ResourceType = '' @ quoted ''StructureDefinition''
          @ '' and (Type = '' @ quoted ''Extension'' @ '')''
          @ (if nonEmpty (rt q) \<and> hasCachedValue c ''extensionContexts'' (the (rt q))
             then categoryFilter ''2'' (rt q) else [])
      else if type_f q = Some ''vs'' then
        '' and ResourceType = '' @ quoted ''ValueSet''
          @ (if nonEmpty (rt q) \<and> hasTerminologySource c (the (rt q))
             then categoryFilter ''1'' (rt q) else [])
      else if type_f q = Some ''cm'' then
        '' and ResourceType = '' @ quoted ''ConceptMap''
          @ (if nonEmpty (rt q) \<and> hasTerminologySource c (the (rt q))
             then categoryFilter ''1'' (rt q) else [])
      else
        (if nonEmpty (rt q) \<and> hasCachedValue c ''resourceTypes'' (the (rt q))
         then '' and ResourceType = '' @ quoted (sqlEscapeString (rt q)) else []))"

definition resourceFts :: "string \<Rightarrow> string" where
  "resourceFts escapedText =
     ''ResourceKey in (select ResourceKey from ResourceFTS where Description match ''
       @ quoted escapedText @ '' or Narrative match '' @ quoted escapedText @ '')''"

definition codeSystemFts :: "string \<Rightarrow> string" where
  "codeSystemFts escapedText =
     ''ResourceKey in (select ResourceKey from CodeSystemFTS where Display match ''
       @ quoted escapedText @ '' or Definition match '' @ quoted escapedText @ '')''"

definition textFilter :: "queryParams \<Rightarrow> string" where
  "textFilter q =
     (if nonEmpty (text_f q) then
        (let escapedText = sqlEscapeString (text_f q) in
         if type_f q = Some ''cs''
         then '' and ('' @ resourceFts escapedText @ '' or '' @ codeSystemFts escapedText @ '')''
         else '' and '' @ resourceFts escapedText)
      else [])"

text \<open>The value of \<^verbatim>\<open>filter\<close> before the conversion to a WHERE clause.\<close>

definition rawFilter :: "cache \<Rightarrow> queryParams \<Rightarrow> string" where
  "rawFilter c q = realmFilter q @ authFilter q @ verFilter q @ typeFilter c q @ textFilter q"

text \<open>
  The conversion: \<^verbatim>\<open>if (filter !== '') filter = 'WHERE ' + filter.substring(4)\<close>.
\<close>

definition buildSqlFilter :: "cache \<Rightarrow> queryParams \<Rightarrow> string" where
  "buildSqlFilter c q =
     (let filter = rawFilter c q in
      if filter \<noteq> [] then ''WHERE '' @ drop 4 filter else filter)"

definition noFacets :: queryParams where
  "noFacets = \<lparr> realm = None, auth = None, ver = None, type_f = None, rt = None,
                text_f = None \<rparr>"

section \<open>The database handle\<close>

text \<open>
  What \<^verbatim>\<open>xigDb.all\<close> and \<^verbatim>\<open>xigDb.get\<close> answer for a statement, by the shape of
  its rows: a failure (the callback's \<^verbatim>\<open>err\<close>) or the rows. The statement is the
  SQL text the source passes.
\<close>

record db =
  queryCodes :: "string \<Rightarrow> err + string option list"
  queryPairs :: "string \<Rightarrow> err + (string option \<times> string option) list"
  queryPackages :: "string \<Rightarrow> err + package list"
  queryGroups :: "string \<Rightarrow> err + (string option \<times> int) list"
  queryCount :: "string \<Rightarrow> err + int option"

section \<open>Summary statistics\<close>

text \<open>
  \<^verbatim>\<open>buildSummaryStats\<close> appends markup to \<^verbatim>\<open>html\<close>; an \<open>item\<close> is one heading,
  one list entry or the error paragraph of the outer \<^verbatim>\<open>catch\<close>. Links and number
  formatting belong to the rendering and are left out.
\<close>

datatype item =
    Heading string
  | VersionEntry string "int option"
  | NoneEntry int
  | AuthorityEntry string int
  | RealmEntry string int
  | OtherEntry nat
  | ErrorParagraph

definition versionCountSql :: "string \<Rightarrow> string \<Rightarrow> string" where
  "versionCountSql currentFilter version =
     (if currentFilter = []
      then ''SELECT COUNT(*) as count FROM Resources WHERE '' @ version @ '' = 1''
      else ''SELECT COUNT(*) as count FROM Resources '' @ currentFilter @ '' AND ''
             @ version @ '' = 1'')"

definition authoritySql :: "string \<Rightarrow> string" where
  "authoritySql currentFilter =
     (if currentFilter = []
      then ''SELECT Authority, COUNT(*) as count FROM Resources GROUP BY Authority ORDER BY Authority''
      else ''SELECT Authority, COUNT(*) as count FROM Resources '' @ currentFilter
             @ '' GROUP BY Authority ORDER BY Authority'')"

definition realmSql :: "string \<Rightarrow> string" where
  "realmSql currentFilter =
     (if currentFilter = []
      then ''SELECT Realm, COUNT(*) as count FROM Resources GROUP BY Realm ORDER BY Realm''
      else ''SELECT Realm, COUNT(*) as count FROM Resources '' @ currentFilter
             @ '' GROUP BY Realm ORDER BY Realm'')"

text \<open>One pass of the version loop: a failed count gives the entry \<^verbatim>\<open>Error\<close>.\<close>

definition versionEntry :: "db \<Rightarrow> string \<Rightarrow> string option \<Rightarrow> item" where
  "versionEntry d currentFilter version =
     (case queryCount d (versionCountSql currentFilter (jsString version)) of
        Inl e \<Rightarrow> VersionEntry (jsString version) None
      | Inr row \<Rightarrow> VersionEntry (jsString version)
                    (Some (case row of None \<Rightarrow> 0 | Some n \<Rightarrow> n)))"

definition authorityEntry :: "string option \<times> int \<Rightarrow> item" where
  "authorityEntry row =
     (if \<not> nonEmpty (fst row) then NoneEntry (snd row)
      else AuthorityEntry (the (fst row)) (snd row))"

text \<open>
  The realm loop, \<^verbatim>\<open>realmResults.forEach\<close>, with its counter \<^verbatim>\<open>c\<close>: the entries
  appended and the final value of \<^verbatim>\<open>c\<close>.
\<close>

fun realmLoop :: "(string option \<times> int) list \<Rightarrow> nat \<Rightarrow> item list \<times> nat" where
  "realmLoop [] c = ([], c)"
| "realmLoop ((realmCode, count) # rows) c =
     (if \<not> nonEmpty realmCode then
        (let (items, c') = realmLoop rows c in (NoneEntry count # items, c'))
      else if length (the realmCode) > 3 then realmLoop rows (c + 1)
      else
        (let (items, c') = realmLoop rows c
         in (RealmEntry (the realmCode) count # items, c')))"

definition realmEntries :: "(string option \<times> int) list \<Rightarrow> item list" where
  "realmEntries realmResults =
     (let (items, c) = realmLoop realmResults 0
      in items @ (if c > 0 then [OtherEntry c] else []))"

definition versionSection :: "cache \<Rightarrow> db \<Rightarrow> queryParams \<Rightarrow> item list" where
  "versionSection c d q =
     (if \<not> nonEmpty (ver q)
      then Heading ''By Version''
             # map (versionEntry d (buildSqlFilter c q)) (getCachedSet c ''versions'')
      else [])"

text \<open>
  The authority and realm sections give the items appended and whether the query
  failed; a failure leaves the heading behind and goes to the outer \<^verbatim>\<open>catch\<close>.
\<close>

definition authoritySection :: "cache \<Rightarrow> db \<Rightarrow> queryParams \<Rightarrow> err + item list" where
  "authoritySection c d q =
     (if \<not> nonEmpty (auth q) then
        (case queryGroups d (authoritySql (buildSqlFilter c q)) of
           Inl e \<Rightarrow> Inl e
         | Inr authorityResults \<Rightarrow>
             Inr (Heading ''By Authority'' # map authorityEntry authorityResults))
      else Inr [])"

definition realmSection :: "cache \<Rightarrow> db \<Rightarrow> queryParams \<Rightarrow> err + item list" where
  "realmSection c d q =
     (if \<not> nonEmpty (realm q) then
        (case queryGroups d (realmSql (buildSqlFilter c q)) of
           Inl e \<Rightarrow> Inl e
         | Inr realmResults \<Rightarrow> Inr (Heading ''By Realm'' # realmEntries realmResults))
      else Inr [])"

text \<open>
  \<^verbatim>\<open>buildSummaryStats\<close>: \<open>None\<close> is the warning returned when there is no database
  handle.
\<close>

definition buildSummaryStats :: "cache \<Rightarrow> db option \<Rightarrow> queryParams \<Rightarrow> item list option" where
  "buildSummaryStats c xigDb_handle q =
     (case xigDb_handle of
        None \<Rightarrow> None
      | Some d \<Rightarrow>
          Some (versionSection c d q @
            (case authoritySection c d q of
               Inl e \<Rightarrow> [Heading ''By Authority'', ErrorParagraph]
             | Inr authorityItems \<Rightarrow>
                 authorityItems @
                 (case realmSection c d q of
                    Inl e \<Rightarrow> [Heading ''By Realm'', ErrorParagraph]
                  | Inr realmItems \<Rightarrow> realmItems))))"

section \<open>Building the cache\<close>

text \<open>
  \<^verbatim>\<open>loadConfigCache\<close> fills the local object \<^verbatim>\<open>newCache.maps\<close> statement by
  statement. Every \<^verbatim>\<open>await executeQuery\<close> may reject and every \<^verbatim>\<open>forEach\<close> callback
  may throw, which both end in the \<^verbatim>\<open>catch\<close>. What follows one statement, up to the
  next \<^verbatim>\<open>await\<close>, is a function from the tables built so far to the tables after it,
  or to the error.
\<close>

type_synonym tables = "(string \<times> table) list"

definition bindE :: "err + 'a \<Rightarrow> ('a \<Rightarrow> err + 'b) \<Rightarrow> err + 'b" where
  "bindE m f = (case m of Inl e \<Rightarrow> Inl e | Inr x \<Rightarrow> f x)"

text \<open>The realms: \<^verbatim>\<open>row.Code.length\<close> throws a TypeError on a NULL code.\<close>

fun realmCodes :: "string option list \<Rightarrow> string option list \<Rightarrow> err + string option list" where
  "realmCodes acc [] = Inr acc"
| "realmCodes acc (None # rows) = Inl TypeError"
| "realmCodes acc (Some code # rows) =
     realmCodes (if length code \<le> 3 then setAdd acc (Some code) else acc) rows"

text \<open>
  \<^verbatim>\<open>String.prototype.trim\<close> removes white space at both ends, so
  \<^verbatim>\<open>s.trim() !== ''\<close> says that some character of \<open>s\<close> is not white space.
\<close>

definition jsWhitespace :: "char \<Rightarrow> bool" where
  "jsWhitespace ch = (ch \<in> set [CHR 0x09, CHR 0x0A, CHR 0x0B, CHR 0x0C, CHR 0x0D, CHR 0x20, CHR 0xA0])"

definition keepsType :: "string option \<Rightarrow> bool" where
  "keepsType v = (nonEmpty v \<and> \<not> list_all jsWhitespace (the v))"

definition replaceHash :: "string \<Rightarrow> string" where
  "replaceHash s = map (\<lambda>ch. if ch = CHR ''#'' then CHR ''|'' else ch) s"

text \<open>The package loop: both indexes, the second under the PID with \<^verbatim>\<open>#\<close> replaced.\<close>

fun packageLoop :: "package list \<Rightarrow> (int \<times> package) list \<Rightarrow> (string \<times> package) list
    \<Rightarrow> (int \<times> package) list \<times> (string \<times> package) list" where
  "packageLoop [] packages packagesById = (packages, packagesById)"
| "packageLoop (row # rows) packages packagesById =
     packageLoop rows (mapSet packages (PackageKey row) row)
       (if nonEmpty (PID row) then mapSet packagesById (replaceHash (the (PID row))) row
        else packagesById)"

text \<open>The rows of a \<^verbatim>\<open>Map\<close>, set one after the other.\<close>

definition mapRows :: "('k \<times> 'v) list \<Rightarrow> ('k \<times> 'v) list" where
  "mapRows rows = foldl (\<lambda>t row. mapSet t (fst row) (snd row)) [] rows"

definition metadataStatement :: "db \<Rightarrow> tables \<Rightarrow> err + tables" where
  "metadataStatement d m =
     bindE (queryPairs d ''SELECT Name, Value FROM Metadata'') (\<lambda>metadataRows.
       Inr (mapSet m ''metadata'' (MapTable (mapRows metadataRows))))"

definition realmsStatement :: "db \<Rightarrow> tables \<Rightarrow> err + tables" where
  "realmsStatement d m =
     bindE (queryCodes d ''SELECT Code FROM Realms'') (\<lambda>realmRows.
     bindE (realmCodes [] realmRows) (\<lambda>realms.
       Inr (mapSet m ''realms'' (SetTable realms))))"

definition authoritiesStatement :: "db \<Rightarrow> tables \<Rightarrow> err + tables" where
  "authoritiesStatement d m =
     bindE (queryCodes d ''SELECT Code FROM Authorities'') (\<lambda>authRows.
       Inr (mapSet m ''authorities'' (SetTable (foldl setAdd [] authRows))))"

definition packagesStatement :: "db \<Rightarrow> tables \<Rightarrow> err + tables" where
  "packagesStatement d m =
     bindE (queryPackages d ''SELECT PackageKey, Id, PID, Web, Canonical FROM Packages'')
       (\<lambda>packageRows.
          (let (packages, packagesById) = packageLoop packageRows [] []
           in Inr (mapSet (mapSet m ''packages'' (PackageMap packages))
                     ''packagesById'' (PackageIdMap packagesById))))"

definition tableCheckQuery :: string where
  "tableCheckQuery =
     ''SELECT name FROM sqlite_master WHERE type='table' AND name='' @ quoted ''Resources''"

definition profileResourceQuery :: string where
  "profileResourceQuery =
     ''SELECT DISTINCT Type FROM Resources WHERE ResourceType = 'StructureDefinition' AND Kind = ''
       @ quoted ''resource''"

definition profileTypeQuery :: string where
  "profileTypeQuery =
     ''SELECT DISTINCT Type FROM Resources WHERE ResourceType = 'StructureDefinition' AND (Kind = 'complex-type' OR Kind = 'primitive-type')''"

text \<open>
  The check for the table \<^verbatim>\<open>Resources\<close>: with the table, the three resource
  statements follow; without it, the three sets are added empty and the category
  statements follow. The result says whether the table exists.
\<close>

definition tableCheckStatement :: "db \<Rightarrow> tables \<Rightarrow> err + bool \<times> tables" where
  "tableCheckStatement d m =
     bindE (queryCodes d tableCheckQuery) (\<lambda>resourcesTableExists.
       if length resourcesTableExists > 0 then Inr (True, m)
       else Inr (False,
         mapSet (mapSet (mapSet m ''profileResources'' (SetTable []))
           ''profileTypes'' (SetTable [])) ''resourceTypes'' (SetTable [])))"

definition profileResourcesStatement :: "db \<Rightarrow> tables \<Rightarrow> err + tables" where
  "profileResourcesStatement d m =
     bindE (queryCodes d profileResourceQuery) (\<lambda>profileResourceRows.
       Inr (mapSet m ''profileResources''
         (SetTable (foldl setAdd [] (filter keepsType profileResourceRows)))))"

definition profileTypesStatement :: "db \<Rightarrow> tables \<Rightarrow> err + tables" where
  "profileTypesStatement d m =
     bindE (queryCodes d profileTypeQuery) (\<lambda>profileTypeRows.
       Inr (mapSet m ''profileTypes''
         (SetTable (foldl setAdd [] (filter keepsType profileTypeRows)))))"

definition resourceTypesStatement :: "db \<Rightarrow> tables \<Rightarrow> err + tables" where
  "resourceTypesStatement d m =
     bindE (queryCodes d ''SELECT DISTINCT ResourceType FROM Resources'') (\<lambda>resourceTypeRows.
       Inr (mapSet m ''resourceTypes'' (SetTable (foldl setAdd [] resourceTypeRows))))"

definition extensionContextsStatement :: "db \<Rightarrow> tables \<Rightarrow> err + tables" where
  "extensionContextsStatement d m =
     bindE (queryCodes d ''SELECT DISTINCT Code FROM Categories WHERE Mode = 2'')
       (\<lambda>extensionContextRows.
          Inr (mapSet m ''extensionContexts'' (SetTable (foldl setAdd [] extensionContextRows))))"

definition extensionTypesStatement :: "db \<Rightarrow> tables \<Rightarrow> err + tables" where
  "extensionTypesStatement d m =
     bindE (queryCodes d ''SELECT DISTINCT Code FROM Categories WHERE Mode = 3'')
       (\<lambda>extensionTypeRows.
          Inr (mapSet m ''extensionTypes'' (SetTable (foldl setAdd [] extensionTypeRows))))"

definition fixedTypes :: "(string option \<times> string option) list" where
  "fixedTypes =
     [(Some ''rp'', Some ''Resource Profiles''),
      (Some ''dp'', Some ''Datatype Profiles''),
      (Some ''ext'', Some ''Extensions''),
      (Some ''lm'', Some ''Logical Models''),
      (Some ''cs'', Some ''CodeSystems''),
      (Some ''vs'', Some ''ValueSets''),
      (Some ''cm'', Some ''ConceptMaps'')]"

text \<open>
  The last statement; the fixed dictionaries are added behind it without another
  \<^verbatim>\<open>await\<close>.
\<close>

definition txSourcesStatement :: "db \<Rightarrow> tables \<Rightarrow> err + tables" where
  "txSourcesStatement d m =
     bindE (queryPairs d ''SELECT Code, Display FROM TxSource'') (\<lambda>txSourceRows.
       Inr (mapSet (mapSet (mapSet m ''txSources'' (MapTable (mapRows txSourceRows)))
         ''versions'' (SetTable (map Some [''R2'', ''R2B'', ''R3'', ''R4'', ''R4B'', ''R5'', ''R6''])))
         ''types'' (MapTable fixedTypes)))"

text \<open>
  The statements are numbered 0 to 10 in the order of the source. \<open>loadStep k\<close> is
  what the completion of statement \<open>k\<close> does: the tables after it and the number of
  the statement issued next, \<open>loadDone\<close> when none is left.
\<close>

definition loadDone :: nat where
  "loadDone = 11"

definition loadStep :: "nat \<Rightarrow> db \<Rightarrow> tables \<Rightarrow> err + nat \<times> tables" where
  "loadStep k d m =
     (if k = 0 then bindE (metadataStatement d m) (\<lambda>m'. Inr (1, m'))
      else if k = 1 then bindE (realmsStatement d m) (\<lambda>m'. Inr (2, m'))
      else if k = 2 then bindE (authoritiesStatement d m) (\<lambda>m'. Inr (3, m'))
      else if k = 3 then bindE (packagesStatement d m) (\<lambda>m'. Inr (4, m'))
      else if k = 4 then
        bindE (tableCheckStatement d m) (\<lambda>(tableExists, m'). Inr (if tableExists then 5 else 8, m'))
      else if k = 5 then bindE (profileResourcesStatement d m) (\<lambda>m'. Inr (6, m'))
      else if k = 6 then bindE (profileTypesStatement d m) (\<lambda>m'. Inr (7, m'))
      else if k = 7 then bindE (resourceTypesStatement d m) (\<lambda>m'. Inr (8, m'))
      else if k = 8 then bindE (extensionContextsStatement d m) (\<lambda>m'. Inr (9, m'))
      else if k = 9 then bindE (extensionTypesStatement d m) (\<lambda>m'. Inr (10, m'))
      else if k = 10 then bindE (txSourcesStatement d m) (\<lambda>m'. Inr (loadDone, m'))
      else Inl TypeError)"

text \<open>
  A whole load whose statement \<open>k\<close> is answered by the database \<open>ds k\<close>:
  \<open>loadRun ds n\<close> is the statement to issue and the tables after \<open>n\<close> completions.
  \<^verbatim>\<open>newCache\<close> starts with \<^verbatim>\<open>loaded: false\<close> and no tables, and
  \<^verbatim>\<open>newCache.loaded = true\<close> is the last assignment before the replacement of
  \<^verbatim>\<open>configCache\<close>. \<open>buildCache\<close> is the load that has one database answer all
  statements.
\<close>

fun loadRun :: "(nat \<Rightarrow> db) \<Rightarrow> nat \<Rightarrow> err + nat \<times> tables" where
  "loadRun ds 0 = Inr (0, [])"
| "loadRun ds (Suc n) =
     bindE (loadRun ds n) (\<lambda>(k, m). if k = loadDone then Inr (k, m) else loadStep k (ds k) m)"

definition newCacheOf :: "nat \<Rightarrow> tables \<Rightarrow> cache" where
  "newCacheOf t m = \<lparr> loaded = True, lastUpdated = Some t, maps = m \<rparr>"

definition buildCacheWith :: "nat \<Rightarrow> (nat \<Rightarrow> db) \<Rightarrow> err + cache" where
  "buildCacheWith t ds =
     bindE (loadRun ds loadDone) (\<lambda>(k, m).
       if k = loadDone then Inr (newCacheOf t m) else Inl TypeError)"

definition buildCache :: "nat \<Rightarrow> db \<Rightarrow> err + cache" where
  "buildCache t d = buildCacheWith t (\<lambda>k. d)"

text \<open>
  The \<^verbatim>\<open>try\<close> block of \<^verbatim>\<open>loadConfigCache\<close> read in one piece, as the source
  writes it: the statements in a row, with the branch at the table check.
\<close>

definition loadTail :: "(nat \<Rightarrow> db) \<Rightarrow> tables \<Rightarrow> err + tables" where
  "loadTail ds m =
     bindE (extensionContextsStatement (ds 8) m) (\<lambda>m9.
     bindE (extensionTypesStatement (ds 9) m9) (\<lambda>m10.
       txSourcesStatement (ds 10) m10))"

definition loadAll :: "(nat \<Rightarrow> db) \<Rightarrow> err + tables" where
  "loadAll ds =
     bindE (metadataStatement (ds 0) []) (\<lambda>m1.
     bindE (realmsStatement (ds 1) m1) (\<lambda>m2.
     bindE (authoritiesStatement (ds 2) m2) (\<lambda>m3.
     bindE (packagesStatement (ds 3) m3) (\<lambda>m4.
     bindE (tableCheckStatement (ds 4) m4) (\<lambda>(tableExists, m5).
       if tableExists then
         bindE (profileResourcesStatement (ds 5) m5) (\<lambda>m6.
         bindE (profileTypesStatement (ds 6) m6) (\<lambda>m7.
         bindE (resourceTypesStatement (ds 7) m7) (\<lambda>m8. loadTail ds m8)))
       else loadTail ds m5)))))"

text \<open>The stepwise load continued from a statement number and its tables.\<close>

fun loadMore :: "(nat \<Rightarrow> db) \<Rightarrow> nat \<Rightarrow> nat \<times> tables \<Rightarrow> err + nat \<times> tables" where
  "loadMore ds 0 r = Inr r"
| "loadMore ds (Suc n) r =
     (if fst r = loadDone then Inr r
      else bindE (loadStep (fst r) (ds (fst r)) (snd r)) (loadMore ds n))"

section \<open>The dataset lifecycle\<close>

subsection \<open>Module state, files and handles\<close>

text \<open>
  A \<open>dataFile\<close> stands for the content of a file. A file on disk is an inode with
  its content; \<open>dbFile\<close> is the file at \<^verbatim>\<open>XIG_DB_PATH\<close> and \<open>tmpFile\<close> the one at
  \<^verbatim>\<open>XIG_DB_PATH + '.tmp'\<close>, \<open>None\<close> when the path does not exist, and \<open>nextInode\<close>
  is the inode the file system gives to the next file it creates. The content of an
  empty file is 0.

  \<^verbatim>\<open>xigDb\<close> is \<open>None\<close> for \<^verbatim>\<open>null\<close>, else the \<^verbatim>\<open>Database\<close> object: the content of
  the file when it was opened, whether that open succeeds (the source assigns the
  object before the open callback runs), and whether \<^verbatim>\<open>close\<close> has been called on
  it.
\<close>

type_synonym dataFile = nat

type_synonym inode = nat

record handle =
  target :: dataFile
  usable :: bool
  closed :: bool

record state =
  xigDb :: "handle option"
  dbFile :: "(inode \<times> dataFile) option"
  tmpFile :: "(inode \<times> dataFile) option"
  nextInode :: inode
  configCache :: cache
  cacheLoadInProgress :: bool

definition initialState :: state where
  "initialState = \<lparr> xigDb = None, dbFile = None, tmpFile = None, nextInode = 0,
     configCache = initialCache, cacheLoadInProgress = False \<rparr>"

subsection \<open>What the collaborators do\<close>

text \<open>
  The answer to one HTTP request of \<^verbatim>\<open>downloadFile\<close>: a redirect with a location,
  another status than 200, an error or a timeout before the response, or a 200
  response with what happens to its body. The body is written completely
  (\<^verbatim>\<open>finish\<close>), the write stream fails, the socket fails (the request emits
  \<^verbatim>\<open>error\<close>), the socket stays idle until the timeout, or the server closes the
  connection before the body is complete (the response emits \<^verbatim>\<open>aborted\<close>).
\<close>

datatype body = Finished dataFile | StreamError | SocketError | BodyTimeout | Aborted

datatype response = Redirect | BadStatus | RequestError | RequestTimeout | Ok200 body

text \<open>
  What the collaborators do for one call of \<^verbatim>\<open>updateXigDatabase\<close>: the answer to
  its request number \<open>k\<close>, whether a content validates and opens, whether each file
  system call succeeds, what the database engine answers on a content, and the
  clock.
\<close>

record env =
  now :: nat
  responses :: "nat \<Rightarrow> response"
  validates :: "dataFile \<Rightarrow> bool"
  opens :: "dataFile \<Rightarrow> bool"
  unlinkDbOk :: bool
  renameOk :: bool
  unlinkTmpOk :: bool
  engine :: "dataFile \<Rightarrow> db"

definition brokenDb :: db where
  "brokenDb = \<lparr> queryCodes = (\<lambda>sql. Inl QueryFailure), queryPairs = (\<lambda>sql. Inl QueryFailure),
     queryPackages = (\<lambda>sql. Inl QueryFailure), queryGroups = (\<lambda>sql. Inl QueryFailure),
     queryCount = (\<lambda>sql. Inl QueryFailure) \<rparr>"

text \<open>What a handle answers: nothing but errors when its open failed or it is closed.\<close>

definition dbOf :: "env \<Rightarrow> handle \<Rightarrow> db" where
  "dbOf e h = (if usable h \<and> \<not> closed h then engine e (target h) else brokenDb)"

subsection \<open>A call and its continuations\<close>

text \<open>
  JavaScript runs a call up to its next \<^verbatim>\<open>await\<close> on a pending promise and goes on
  with it when the awaited event has happened; nothing else runs in between two
  awaits, anything may run while a call waits. The \<open>pc\<close> of a call of
  \<^verbatim>\<open>updateXigDatabase\<close> says what it waits for, with the locals it needs then:
  the answer to request \<open>k\<close>; the end of the body that is streamed to an inode; the
  validation of a content; the callback of \<^verbatim>\<open>close\<close>; the callback of the open,
  with the place \<^verbatim>\<open>initializeDatabase\<close> was called from and the result of the open;
  the rows of statement \<open>k\<close> of \<^verbatim>\<open>loadConfigCache\<close>, with the tables of
  \<^verbatim>\<open>newCache\<close> and the handle the statement was sent to. A call has returned, has
  thrown, or waits for a promise that never settles.
\<close>

datatype place = InTry | InCatch | AtStart

datatype pc =
    Downloading nat
  | Streaming body inode
  | Validating dataFile
  | Closing
  | Opening place bool
  | Loading nat tables handle
  | Returned
  | Threw err
  | NeverSettles

definition maxRedirects :: nat where
  "maxRedirects = 5"

text \<open>
  The first part of \<^verbatim>\<open>initializeDatabase\<close>: without a file it resolves at once,
  else it assigns the new \<^verbatim>\<open>Database\<close> object and waits for the open callback.
\<close>

definition initializeDatabase :: "env \<Rightarrow> place \<Rightarrow> state \<Rightarrow> pc \<times> state" where
  "initializeDatabase e p s =
     (case dbFile s of
        None \<Rightarrow> (Returned, s)
      | Some (i, f) \<Rightarrow>
          (Opening p (opens e f),
           s\<lparr> xigDb := Some \<lparr> target = f, usable = opens e f, closed = False \<rparr> \<rparr>))"

text \<open>
  The \<^verbatim>\<open>catch\<close> block of \<^verbatim>\<open>updateXigDatabase\<close>: it removes the temporary file if
  it exists, and calls \<^verbatim>\<open>initializeDatabase\<close> when \<^verbatim>\<open>xigDb\<close> is \<^verbatim>\<open>null\<close>. What it
  throws leaves \<^verbatim>\<open>updateXigDatabase\<close>.
\<close>

definition catchBlock :: "env \<Rightarrow> state \<Rightarrow> pc \<times> state" where
  "catchBlock e s =
     (if tmpFile s \<noteq> None \<and> \<not> unlinkTmpOk e then (Threw SwapFailure, s)
      else (let s1 = s\<lparr> tmpFile := None \<rparr>
            in if xigDb s1 = None then initializeDatabase e InCatch s1 else (Returned, s1)))"

text \<open>
  The first part of \<^verbatim>\<open>loadConfigCache\<close>: the two guards, the flag, and the first
  statement sent to \<^verbatim>\<open>xigDb\<close>.
\<close>

definition loadConfigCache :: "env \<Rightarrow> state \<Rightarrow> pc \<times> state" where
  "loadConfigCache e s =
     (if cacheLoadInProgress s then (Returned, s)
      else (case xigDb s of
              None \<Rightarrow> (Returned, s)
            | Some h \<Rightarrow> (Loading 0 [] h, s\<lparr> cacheLoadInProgress := True \<rparr>)))"

text \<open>
  The rows of statement \<open>k\<close> have come. A failure goes to the \<^verbatim>\<open>catch\<close> of
  \<^verbatim>\<open>loadConfigCache\<close>, which leaves \<^verbatim>\<open>configCache\<close> alone. After the last
  statement \<^verbatim>\<open>configCache\<close> is replaced. Otherwise the next statement is sent to
  what \<^verbatim>\<open>xigDb\<close> is now, which throws if it is \<^verbatim>\<open>null\<close>. The \<^verbatim>\<open>finally\<close> resets
  the flag. \<^verbatim>\<open>loadConfigCache\<close> never throws, and the call that awaited it returns.
\<close>

definition queryDone :: "env \<Rightarrow> nat \<Rightarrow> tables \<Rightarrow> handle \<Rightarrow> state \<Rightarrow> pc \<times> state" where
  "queryDone e k m h s =
     (case loadStep k (dbOf e h) m of
        Inl er \<Rightarrow> (Returned, s\<lparr> cacheLoadInProgress := False \<rparr>)
      | Inr (k', m') \<Rightarrow>
          if k' = loadDone
          then (Returned, s\<lparr> configCache := newCacheOf (now e) m',
                              cacheLoadInProgress := False \<rparr>)
          else (case xigDb s of
                  None \<Rightarrow> (Returned, s\<lparr> cacheLoadInProgress := False \<rparr>)
                | Some h' \<Rightarrow> (Loading k' m' h', s)))"

text \<open>
  The open callback: on success \<^verbatim>\<open>await loadConfigCache()\<close>; an error rejects the
  promise of \<^verbatim>\<open>initializeDatabase\<close>. The \<^verbatim>\<open>try\<close> of \<^verbatim>\<open>updateXigDatabase\<close> catches
  the rejection, its \<^verbatim>\<open>catch\<close> block does not, and \<^verbatim>\<open>initializeXigModule\<close> catches
  and logs it.
\<close>

definition openDone :: "env \<Rightarrow> place \<Rightarrow> bool \<Rightarrow> state \<Rightarrow> pc \<times> state" where
  "openDone e p ok s =
     (if ok then loadConfigCache e s
      else (case p of
              InTry \<Rightarrow> catchBlock e s
            | InCatch \<Rightarrow> (Threw OpenFailure, s)
            | AtStart \<Rightarrow> (Returned, s)))"

text \<open>
  The file replacement, run without an \<^verbatim>\<open>await\<close>:
  \<^verbatim>\<open>if (fs.existsSync(XIG_DB_PATH)) fs.unlinkSync(XIG_DB_PATH)\<close>, then
  \<^verbatim>\<open>fs.renameSync(tempPath, XIG_DB_PATH)\<close>, which also fails when the temporary
  path does not exist, then \<^verbatim>\<open>initializeDatabase\<close>.
\<close>

definition swapFiles :: "env \<Rightarrow> state \<Rightarrow> pc \<times> state" where
  "swapFiles e s =
     (if dbFile s \<noteq> None \<and> \<not> unlinkDbOk e then catchBlock e s
      else (let s1 = s\<lparr> dbFile := None \<rparr>
            in if tmpFile s1 = None \<or> \<not> renameOk e then catchBlock e s1
               else initializeDatabase e InTry (s1\<lparr> dbFile := tmpFile s1, tmpFile := None \<rparr>)))"

text \<open>The callback of \<^verbatim>\<open>close\<close>: \<^verbatim>\<open>xigDb = null\<close>, whatever \<^verbatim>\<open>xigDb\<close> is by now.\<close>

definition closeDone :: "env \<Rightarrow> state \<Rightarrow> pc \<times> state" where
  "closeDone e s = swapFiles e (s\<lparr> xigDb := None \<rparr>)"

text \<open>
  The validation has ended. On success \<^verbatim>\<open>if (xigDb)\<close> calls \<^verbatim>\<open>close\<close> on the
  handle and waits for its callback; without a handle the replacement follows at
  once.
\<close>

definition validationDone :: "env \<Rightarrow> dataFile \<Rightarrow> state \<Rightarrow> pc \<times> state" where
  "validationDone e f s =
     (if validates e f then
        (case xigDb s of
           None \<Rightarrow> swapFiles e s
         | Some h \<Rightarrow> (Closing, s\<lparr> xigDb := Some (h\<lparr> closed := True \<rparr>) \<rparr>))
      else catchBlock e s)"

text \<open>
  The download has resolved and \<^verbatim>\<open>validateDatabaseFile\<close> starts: it rejects at once
  when the temporary path does not exist, else it opens what is there.
\<close>

definition downloadDone :: "env \<Rightarrow> state \<Rightarrow> pc \<times> state" where
  "downloadDone e s =
     (case tmpFile s of
        None \<Rightarrow> catchBlock e s
      | Some (i, f) \<Rightarrow> (Validating f, s))"

text \<open>
  A write stream writes to the inode it has opened, wherever that inode is by now.
\<close>

definition writeInode :: "inode \<Rightarrow> dataFile \<Rightarrow> (inode \<times> dataFile) option \<Rightarrow> (inode \<times> dataFile) option" where
  "writeInode i f file =
     (case file of
        None \<Rightarrow> None
      | Some (j, c) \<Rightarrow> if j = i then Some (j, f) else Some (j, c))"

text \<open>
  The end of a body. \<^verbatim>\<open>finish\<close> resolves the promise. An error of the write stream
  rejects, after it has started an asynchronous \<^verbatim>\<open>fs.unlink\<close> of the temporary path
  whose result it ignores: the \<^verbatim>\<open>catch\<close> block removes the same path, so the
  asynchronous removal adds nothing to it. An error of the socket and the timeout
  reject and leave what has been written. For an aborted response (the server closes
  the connection before the body is complete) the source has no listener: the write
  stream is not ended, the destroyed socket has no timeout any more, and the promise
  of \<^verbatim>\<open>downloadFile\<close> stays pending for ever, and so does the call.
\<close>

definition bodyDone :: "env \<Rightarrow> body \<Rightarrow> inode \<Rightarrow> state \<Rightarrow> pc \<times> state" where
  "bodyDone e b i s =
     (case b of
        Finished f \<Rightarrow>
          downloadDone e (s\<lparr> dbFile := writeInode i f (dbFile s),
                             tmpFile := writeInode i f (tmpFile s) \<rparr>)
      | StreamError \<Rightarrow> catchBlock e s
      | SocketError \<Rightarrow> catchBlock e s
      | BodyTimeout \<Rightarrow> catchBlock e s
      | Aborted \<Rightarrow> (NeverSettles, s))"

text \<open>
  The answer to request \<open>k\<close>, that is \<^verbatim>\<open>attemptDownload\<close> with
  \<^verbatim>\<open>redirectCount = k\<close>. A redirect issues request \<open>k + 1\<close> unless that exceeds
  \<^verbatim>\<open>maxRedirects\<close>. A 200 response opens the write stream on the temporary path,
  which creates the file or empties the one that is there.
\<close>

definition responseDone :: "env \<Rightarrow> nat \<Rightarrow> state \<Rightarrow> pc \<times> state" where
  "responseDone e k s =
     (case responses e k of
        Redirect \<Rightarrow> if k + 1 > maxRedirects then catchBlock e s else (Downloading (k + 1), s)
      | BadStatus \<Rightarrow> catchBlock e s
      | RequestError \<Rightarrow> catchBlock e s
      | RequestTimeout \<Rightarrow> catchBlock e s
      | Ok200 b \<Rightarrow>
          (case tmpFile s of
             None \<Rightarrow> (Streaming b (nextInode s),
                       s\<lparr> tmpFile := Some (nextInode s, 0), nextInode := nextInode s + 1 \<rparr>)
           | Some (i, c) \<Rightarrow> (Streaming b i, s\<lparr> tmpFile := Some (i, 0) \<rparr>)))"

text \<open>One continuation of a call: the event it waits for has happened.\<close>

definition stepCall :: "env \<Rightarrow> pc \<Rightarrow> state \<Rightarrow> pc \<times> state" where
  "stepCall e p s =
     (case p of
        Downloading k \<Rightarrow> responseDone e k s
      | Streaming b i \<Rightarrow> bodyDone e b i s
      | Validating f \<Rightarrow> validationDone e f s
      | Closing \<Rightarrow> closeDone e s
      | Opening pl ok \<Rightarrow> openDone e pl ok s
      | Loading k m h \<Rightarrow> queryDone e k m h s
      | Returned \<Rightarrow> (Returned, s)
      | Threw er \<Rightarrow> (Threw er, s)
      | NeverSettles \<Rightarrow> (NeverSettles, s))"

subsection \<open>The module with its running calls\<close>

text \<open>
  The module state together with the calls made so far. \<^verbatim>\<open>initializeXigModule\<close>
  calls \<^verbatim>\<open>initializeDatabase\<close> and waits for it. Calling \<^verbatim>\<open>updateXigDatabase\<close>
  (the route \<^verbatim>\<open>POST /update\<close>, the daily schedule, the timer of the first download)
  runs it up to its first \<^verbatim>\<open>await\<close>: it tests nothing, calls \<^verbatim>\<open>downloadFile\<close>,
  whose promise executor issues request 0, and waits. \<open>deliver i\<close> lets call \<open>i\<close> go
  on by one continuation.
\<close>

record system =
  shared :: state
  calls :: "(env \<times> pc) list"

definition initializeXigModule :: "env \<Rightarrow> system \<Rightarrow> system" where
  "initializeXigModule e sys =
     (let (p, s') = initializeDatabase e AtStart (shared sys)
      in \<lparr> shared = s', calls = calls sys @ [(e, p)] \<rparr>)"

definition updateXigDatabase :: "env \<Rightarrow> system \<Rightarrow> system" where
  "updateXigDatabase e sys = sys\<lparr> calls := calls sys @ [(e, Downloading 0)] \<rparr>"

definition deliver :: "nat \<Rightarrow> system \<Rightarrow> system" where
  "deliver i sys =
     (if i < length (calls sys) then
        (let (e, p) = calls sys ! i;
             (p', s') = stepCall e p (shared sys)
         in \<lparr> shared = s', calls = (calls sys)[i := (e, p')] \<rparr>)
      else sys)"

text \<open>
  What happens to the module, one event after the other: the module is initialised,
  \<^verbatim>\<open>updateXigDatabase\<close> is called, or the event that call \<open>i\<close> waits for arrives.
\<close>

datatype event = Starts env | Updates env | Resumes nat

fun occur :: "event \<Rightarrow> system \<Rightarrow> system" where
  "occur (Starts e) sys = initializeXigModule e sys"
| "occur (Updates e) sys = updateXigDatabase e sys"
| "occur (Resumes i) sys = deliver i sys"

definition run :: "event list \<Rightarrow> system \<Rightarrow> system" where
  "run events sys = foldl (\<lambda>sy ev. occur ev sy) sys events"

text \<open>
  A call that runs alone: \<open>settle n\<close> lets it go on \<open>n\<close> times with nothing in
  between. No call has more than 24 continuations, so \<open>updateAlone\<close> is a whole call
  of \<^verbatim>\<open>updateXigDatabase\<close> made while nothing else runs, and \<open>loadAlone\<close> a whole
  call of \<^verbatim>\<open>loadConfigCache\<close>.
\<close>

fun settle :: "nat \<Rightarrow> env \<Rightarrow> pc \<Rightarrow> state \<Rightarrow> pc \<times> state" where
  "settle 0 e p s = (p, s)"
| "settle (Suc n) e p s = (case stepCall e p s of (p', s') \<Rightarrow> settle n e p' s')"

definition updateAlone :: "env \<Rightarrow> state \<Rightarrow> pc \<times> state" where
  "updateAlone e s = settle 24 e (Downloading 0) s"


section \<open>Notions used to state the properties\<close>

subsection \<open>Known refinement values\<close>

text \<open>
  The table a view type validates \<^verbatim>\<open>rt\<close> against, read off the branches of the
  \<^verbatim>\<open>switch (type)\<close>: none for code systems and logical models, \<^verbatim>\<open>resourceTypes\<close>
  when no view type is selected. A value is known when the cache is loaded and the
  value is a member of that table (a key, for the \<^verbatim>\<open>Map\<close> \<^verbatim>\<open>txSources\<close>).
\<close>

definition refinementTable :: "string option \<Rightarrow> string option" where
  "refinementTable t =
     (if t = Some ''cs'' then None
      else if t = Some ''rp'' then Some ''profileResources''
      else if t = Some ''dp'' then Some ''profileTypes''
      else if t = Some ''lm'' then None
      else if t = Some ''ext'' then Some ''extensionContexts''
      else if t = Some ''vs'' then Some ''txSources''
      else if t = Some ''cm'' then Some ''txSources''
      else Some ''resourceTypes'')"

definition tableMember :: "table \<Rightarrow> string \<Rightarrow> bool" where
  "tableMember t v =
     (case t of
        SetTable xs \<Rightarrow> Some v \<in> set xs
      | MapTable kvs \<Rightarrow> Some v \<in> set (map fst kvs)
      | PackageMap ps \<Rightarrow> False
      | PackageIdMap ps \<Rightarrow> v \<in> set (map fst ps))"

definition knownRefinement :: "cache \<Rightarrow> string option \<Rightarrow> string \<Rightarrow> bool" where
  "knownRefinement c t v =
     (case refinementTable t of
        None \<Rightarrow> False
      | Some tableName \<Rightarrow>
          (case getCachedTable c tableName of
             None \<Rightarrow> False
           | Some tab \<Rightarrow> tableMember tab v))"

subsection \<open>Reading query text as SQL\<close>

text \<open>
  How SQLite reads string literals: a literal starts at a single quote and ends at
  the next single quote that is not doubled; a doubled quote inside stands for one
  quote. \<open>lexSql\<close> splits a text into the characters outside literals and the
  literals with their contents; its first argument is the content read so far of the
  literal being read, \<open>None\<close> outside a literal. A text that ends inside a literal
  has no reading.
\<close>

datatype token = Code char | StringLit string

fun lexSql :: "string option \<Rightarrow> string \<Rightarrow> token list option" where
  "lexSql None [] = Some []"
| "lexSql (Some lit) [] = None"
| "lexSql None (ch # cs) =
     (if ch = sq then lexSql (Some []) cs
      else map_option ((#) (Code ch)) (lexSql None cs))"
| "lexSql (Some lit) (ch # cs) =
     (if ch \<noteq> sq then lexSql (Some (lit @ [ch])) cs
      else (case cs of
              [] \<Rightarrow> Some [StringLit lit]
            | ch' # cs' \<Rightarrow>
                if ch' = sq then lexSql (Some (lit @ [sq])) cs'
                else map_option ((#) (StringLit lit)) (lexSql None cs)))"

definition code :: "string \<Rightarrow> token list" where
  "code s = map Code s"

text \<open>
  The filter as a list of tokens in which every facet value stands as the content of
  one string literal, unchanged: what \<^verbatim>\<open>buildSqlFilter\<close> means to write.
\<close>

definition realmTokens :: "queryParams \<Rightarrow> token list" where
  "realmTokens q =
     (if nonEmpty (realm q) then code '' and realm = '' @ [StringLit (the (realm q))] else [])"

definition authTokens :: "queryParams \<Rightarrow> token list" where
  "authTokens q =
     (if nonEmpty (auth q) then code '' and authority = '' @ [StringLit (the (auth q))]
      else [])"

definition categoryTokens :: "string \<Rightarrow> string \<Rightarrow> token list" where
  "categoryTokens mode v =
     code ('' and ResourceKey in (Select ResourceKey from Categories where Mode = '' @ mode
       @ '' and Code = '') @ [StringLit v] @ code '')''"

definition typeTokens :: "cache \<Rightarrow> queryParams \<Rightarrow> token list" where
  "typeTokens c q =
     (if type_f q = Some ''cs'' then
        code '' and ResourceType = '' @ [StringLit ''CodeSystem'']
      else if type_f q = Some ''rp'' then
        code '' and ResourceType = '' @ [StringLit ''StructureDefinition'']
          @ code '' and kind = '' @ [StringLit ''resource'']
          @ (if nonEmpty (rt q) \<and> hasCachedValue c ''profileResources'' (the (rt q))
             then code '' and Type = '' @ [StringLit (the (rt q))] else [])
      else if type_f q = Some ''dp'' then
        code '' and ResourceType = '' @ [StringLit ''StructureDefinition'']
          @ code '' and (kind = '' @ [StringLit ''complex-type'']
          @ code '' or kind = '' @ [StringLit ''primitive-type''] @ code '')''
          @ (if nonEmpty (rt q) \<and> hasCachedValue c ''profileTypes'' (the (rt q))
             then code '' and Type = '' @ [StringLit (the (rt q))] else [])
      else if type_f q = Some ''lm'' then
        code '' and ResourceType = '' @ [StringLit ''StructureDefinition'']
          @ code '' and kind = '' @ [StringLit ''logical'']
      else if type_f q = Some ''ext'' then
        code '' and ResourceType = '' @ [StringLit ''StructureDefinition'']
          @ code '' and (Type = '' @ [StringLit ''Extension''] @ code '')''
          @ (if nonEmpty (rt q) \<and> hasCachedValue c ''extensionContexts'' (the (rt q))
             then categoryTokens ''2'' (the (rt q)) else [])
      else if type_f q = Some ''vs'' then
        code '' and ResourceType = '' @ [StringLit ''ValueSet'']
          @ (if nonEmpty (rt q) \<and> hasTerminologySource c (the (rt q))
             then categoryTokens ''1'' (the (rt q)) else [])
      else if type_f q = Some ''cm'' then
        code '' and ResourceType = '' @ [StringLit ''ConceptMap'']
          @ (if nonEmpty (rt q) \<and> hasTerminologySource c (the (rt q))
             then categoryTokens ''1'' (the (rt q)) else [])
      else
        (if nonEmpty (rt q) \<and> hasCachedValue c ''resourceTypes'' (the (rt q))
         then code '' and ResourceType = '' @ [StringLit (the (rt q))] else []))"

definition resourceFtsTokens :: "string \<Rightarrow> token list" where
  "resourceFtsTokens v =
     code ''ResourceKey in (select ResourceKey from ResourceFTS where Description match ''
       @ [StringLit v] @ code '' or Narrative match '' @ [StringLit v] @ code '')''"

definition codeSystemFtsTokens :: "string \<Rightarrow> token list" where
  "codeSystemFtsTokens v =
     code ''ResourceKey in (select ResourceKey from CodeSystemFTS where Display match ''
       @ [StringLit v] @ code '' or Definition match '' @ [StringLit v] @ code '')''"

definition textTokens :: "queryParams \<Rightarrow> token list" where
  "textTokens q =
     (if nonEmpty (text_f q) then
        (if type_f q = Some ''cs''
         then code '' and ('' @ resourceFtsTokens (the (text_f q)) @ code '' or ''
                @ codeSystemFtsTokens (the (text_f q)) @ code '')''
         else code '' and '' @ resourceFtsTokens (the (text_f q)))
      else [])"

definition filterTokens :: "cache \<Rightarrow> queryParams \<Rightarrow> token list" where
  "filterTokens c q =
     (let ts = realmTokens q @ authTokens q @ code (verFilter q) @ typeTokens c q
                 @ textTokens q
      in if ts \<noteq> [] then code ''WHERE '' @ drop 4 ts else [])"

subsection \<open>The closed enumeration of versions\<close>

definition versionCodes :: "string list" where
  "versionCodes = [''R2'', ''R2B'', ''R3'', ''R4'', ''R4B'', ''R5'', ''R6'']"

subsection \<open>Realm rows\<close>

text \<open>A row of the realm query whose code has more than three characters.\<close>

definition longCode :: "string option \<times> int \<Rightarrow> bool" where
  "longCode row = (nonEmpty (fst row) \<and> length (the (fst row)) > 3)"

subsection \<open>Snapshots\<close>









subsection \<open>Loads in progress\<close>

text \<open>
  The tables a call has in hand while it waits for statement \<open>k\<close> are those of a
  load that has come to statement \<open>k\<close>, whatever databases answered so far.
\<close>

definition partialLoad :: "pc \<Rightarrow> bool" where
  "partialLoad p =
     (case p of
        Loading k m h \<Rightarrow> k < loadDone \<and> (\<exists>ds n. loadRun ds n = Inr (k, m))
      | _ \<Rightarrow> True)"


subsection \<open>The continuations a call has left\<close>

text \<open>
  A bound on the continuations a call still has: none when it has returned, thrown
  or met a promise that never settles, one for each statement of a load that is
  left, and so on back to the first request with its five redirects.
\<close>

definition rank :: "pc \<Rightarrow> nat" where
  "rank p =
     (case p of
        Downloading k \<Rightarrow> 18 + (6 - k)
      | Streaming b i \<Rightarrow> 17
      | Validating f \<Rightarrow> 16
      | Closing \<Rightarrow> 15
      | Opening pl ok \<Rightarrow> (case pl of InTry \<Rightarrow> 14 | InCatch \<Rightarrow> 13 | AtStart \<Rightarrow> 13)
      | Loading k m h \<Rightarrow> 1 + (11 - k)
      | Returned \<Rightarrow> 0
      | Threw er \<Rightarrow> 0
      | NeverSettles \<Rightarrow> 0)"

subsection \<open>Outcomes of a refresh\<close>

text \<open>
  The handle that \<^verbatim>\<open>initializeDatabase\<close> assigns for a content, and the state
  after a cache load from a content that runs alone: with the snapshot built from it,
  or unchanged if one of the statements fails.
\<close>

definition opened :: "dataFile \<Rightarrow> bool \<Rightarrow> handle" where
  "opened f ok = \<lparr> target = f, usable = ok, closed = False \<rparr>"

definition withCacheOf :: "env \<Rightarrow> dataFile \<Rightarrow> state \<Rightarrow> state" where
  "withCacheOf e f s =
     (case buildCache (now e) (engine e f) of
        Inl er \<Rightarrow> s
      | Inr c \<Rightarrow> s\<lparr> configCache := c \<rparr>)"

text \<open>
  Every step of a refresh works for the content \<open>f\<close>: the first request is answered
  with the whole of \<open>f\<close>, which validates, the file system calls of the replacement
  succeed and \<open>f\<close> opens.
\<close>

definition refreshWorks :: "env \<Rightarrow> dataFile \<Rightarrow> bool" where
  "refreshWorks e f =
     (responses e 0 = Ok200 (Finished f) \<and> validates e f \<and> unlinkDbOk e \<and> renameOk e \<and>
      opens e f)"

section \<open>Example inputs\<close>

text \<open>
  A database whose tables are all empty, one whose realm breakdown has the single row
  (\<^verbatim>\<open>longcustomrealm\<close>, 3), and one whose authority breakdown has two rows.
\<close>

definition emptyDb :: db where
  "emptyDb = \<lparr> queryCodes = (\<lambda>sql. Inr []), queryPairs = (\<lambda>sql. Inr []),
     queryPackages = (\<lambda>sql. Inr []), queryGroups = (\<lambda>sql. Inr []),
     queryCount = (\<lambda>sql. Inr None) \<rparr>"

definition realmDb :: db where
  "realmDb = emptyDb\<lparr> queryGroups := (\<lambda>sql.
      if sql = realmSql [] then Inr [(Some ''longcustomrealm'', 3)] else Inr []) \<rparr>"


text \<open>A loaded cache that knows the profiled resource \<^verbatim>\<open>Patient\<close> only.\<close>

definition exampleCache :: cache where
  "exampleCache = \<lparr> loaded = True, lastUpdated = Some 0,
     maps = [(''profileResources'', SetTable [Some ''Patient''])] \<rparr>"

text \<open>
  A database with rows in its tables: a repeated key in the metadata, a repeated and
  a long realm code, one package, and a table \<^verbatim>\<open>Resources\<close> whose profiled
  resources have a blank and a NULL type. And the same database with its table
  \<^verbatim>\<open>Authorities\<close> missing, so that the third statement of a cache load fails.
\<close>

definition corePackage :: package where
  "corePackage = \<lparr> PackageKey = 1, PkgId = Some ''hl7.fhir.r4.core'',
     PID = Some ''hl7.fhir.r4.core#4.0.1'', Web = None, Canonical = Some ''http://hl7.org/fhir'' \<rparr>"

definition catalogueDb :: db where
  "catalogueDb = \<lparr>
     queryCodes = (\<lambda>sql.
       if sql = ''SELECT Code FROM Realms''
       then Inr [Some ''us'', Some ''uv'', Some ''europe'', Some ''us'']
       else if sql = ''SELECT Code FROM Authorities'' then Inr [Some ''hl7'', Some ''ihe'']
       else if sql = tableCheckQuery then Inr [Some ''Resources'']
       else if sql = profileResourceQuery
       then Inr [Some ''Patient'', Some '' '', None, Some ''Patient'']
       else Inr []),
     queryPairs = (\<lambda>sql.
       if sql = ''SELECT Name, Value FROM Metadata''
       then Inr [(Some ''date'', Some ''2024''), (Some ''date'', Some ''2025'')]
       else Inr []),
     queryPackages = (\<lambda>sql. Inr [corePackage]),
     queryGroups = (\<lambda>sql. Inr []),
     queryCount = (\<lambda>sql. Inr None) \<rparr>"

definition faultyDb :: db where
  "faultyDb = catalogueDb\<lparr> queryCodes := (\<lambda>sql.
      if sql = ''SELECT Code FROM Authorities'' then Inl QueryFailure
      else queryCodes catalogueDb sql) \<rparr>"

text \<open>The snapshot of \<open>catalogueDb\<close> built at time \<open>t\<close>.\<close>

definition catalogueSnapshot :: "nat \<Rightarrow> cache" where
  "catalogueSnapshot t = \<lparr> loaded = True, lastUpdated = Some t,
     maps = [(''metadata'', MapTable [(Some ''date'', Some ''2025'')]),
             (''realms'', SetTable [Some ''us'', Some ''uv'']),
             (''authorities'', SetTable [Some ''hl7'', Some ''ihe'']),
             (''packages'', PackageMap [(1, corePackage)]),
             (''packagesById'', PackageIdMap [(''hl7.fhir.r4.core|4.0.1'', corePackage)]),
             (''profileResources'', SetTable [Some ''Patient'']),
             (''profileTypes'', SetTable []),
             (''resourceTypes'', SetTable []),
             (''extensionContexts'', SetTable []),
             (''extensionTypes'', SetTable []),
             (''txSources'', MapTable []),
             (''versions'', SetTable (map Some versionCodes)),
             (''types'', MapTable fixedTypes)] \<rparr>"

text \<open>
  The collaborators of the examples. The content 1 is \<open>catalogueDb\<close>, every other
  content is \<open>faultyDb\<close>; every content validates and opens and every file system
  call succeeds. \<open>baseEnv\<close> has its download refused; \<open>goodEnv\<close> downloads the
  content 2; with \<open>slowEnv\<close> the server closes the connection before the body is
  complete; \<open>renameEnv\<close> is \<open>goodEnv\<close> with a rename that fails, \<open>deleteEnv\<close> is
  \<open>goodEnv\<close> with a delete that fails, and \<open>lockedEnv\<close> is \<open>deleteEnv\<close> with files
  that cannot be opened any more once they have been validated.
\<close>

definition baseEnv :: env where
  "baseEnv = \<lparr> now = 7, responses = (\<lambda>k. BadStatus), validates = (\<lambda>f. True),
     opens = (\<lambda>f. True), unlinkDbOk = True, renameOk = True, unlinkTmpOk = True,
     engine = (\<lambda>f. if f = 1 then catalogueDb else faultyDb) \<rparr>"

definition goodEnv :: env where
  "goodEnv = baseEnv\<lparr> now := 9, responses := (\<lambda>k. Ok200 (Finished 2)) \<rparr>"

definition slowEnv :: env where
  "slowEnv = baseEnv\<lparr> now := 9, responses := (\<lambda>k. Ok200 Aborted) \<rparr>"

definition renameEnv :: env where
  "renameEnv = goodEnv\<lparr> renameOk := False \<rparr>"

definition deleteEnv :: env where
  "deleteEnv = goodEnv\<lparr> unlinkDbOk := False \<rparr>"

definition lockedEnv :: env where
  "lockedEnv = deleteEnv\<lparr> opens := (\<lambda>f. False) \<rparr>"

text \<open>
  The module when it is loaded with the dataset 1 on disk, the events of its
  initialisation (the open callback and the eleven statements of the first cache
  load), and the module once it serves that dataset.
\<close>

definition diskState :: state where
  "diskState = initialState\<lparr> dbFile := Some (0, 1), nextInode := 1 \<rparr>"

definition startUp :: "event list" where
  "startUp = Starts baseEnv # replicate 12 (Resumes 0)"

definition servingState :: state where
  "servingState = \<lparr> xigDb = Some (opened 1 True), dbFile = Some (0, 1), tmpFile = None,
     nextInode = 1, configCache = catalogueSnapshot 7, cacheLoadInProgress = False \<rparr>"

definition serving :: system where
  "serving = \<lparr> shared = servingState, calls = [(baseEnv, Returned)] \<rparr>"

text \<open>
  Two refreshes that overlap, both with steps that all work: the second is called
  while the first streams its body (calls 1 and 2; call 0 is the initialisation).
\<close>

definition overlap :: "event list" where
  "overlap = [Updates goodEnv, Resumes 1, Updates goodEnv, Resumes 1, Resumes 2, Resumes 2,
     Resumes 1, Resumes 2, Resumes 1, Resumes 2, Resumes 1]"

text \<open>
  The module while its first cache load waits for its first statement, and the
  module while one refresh streams its body.
\<close>

definition loading :: system where
  "loading = \<lparr> shared = diskState\<lparr> xigDb := Some (opened 1 True), cacheLoadInProgress := True \<rparr>,
     calls = [(baseEnv, Loading 0 [] (opened 1 True))] \<rparr>"

definition busy :: system where
  "busy = \<lparr> shared = servingState\<lparr> tmpFile := Some (1, 0), nextInode := 2 \<rparr>,
     calls = [(baseEnv, Returned), (goodEnv, Streaming (Finished 2) 1)] \<rparr>"

section \<open>Properties of the filter compiler\<close>

subsection \<open>A facet only reaches its own fragment\<close>



lemma ver_update:
  "realmFilter (q\<lparr>ver := x\<rparr>) = realmFilter q"
  "authFilter (q\<lparr>ver := x\<rparr>) = authFilter q"
  "typeFilter c (q\<lparr>ver := x\<rparr>) = typeFilter c q"
  "textFilter (q\<lparr>ver := x\<rparr>) = textFilter q"
  by (simp_all add: realmFilter_def authFilter_def typeFilter_def textFilter_def
      split del: if_split cong: if_cong)

lemma rt_update:
  "realmFilter (q\<lparr>rt := x\<rparr>) = realmFilter q"
  "authFilter (q\<lparr>rt := x\<rparr>) = authFilter q"
  "verFilter (q\<lparr>rt := x\<rparr>) = verFilter q"
  "textFilter (q\<lparr>rt := x\<rparr>) = textFilter q"
  by (simp_all add: realmFilter_def authFilter_def verFilter_def textFilter_def
      split del: if_split cong: if_cong)


lemma absent_facet_fragment:
  "realmFilter (q\<lparr>realm := None\<rparr>) = []"
  "authFilter (q\<lparr>auth := None\<rparr>) = []"
  "verFilter (q\<lparr>ver := None\<rparr>) = []"
  by (simp_all add: realmFilter_def authFilter_def verFilter_def nonEmpty_def)


subsection \<open>Every fragment is empty or starts with the connective\<close>

lemma realmFilter_shape: "realmFilter q = [] \<or> prefix '' and '' (realmFilter q)"
  by (simp add: realmFilter_def)

lemma authFilter_shape: "authFilter q = [] \<or> prefix '' and '' (authFilter q)"
  by (simp add: authFilter_def)

lemma verFilter_shape: "verFilter q = [] \<or> prefix '' and '' (verFilter q)"
  by (simp add: verFilter_def)

lemma typeFilter_shape: "typeFilter c q = [] \<or> prefix '' and '' (typeFilter c q)"
  by (simp add: typeFilter_def)

lemma textFilter_shape: "textFilter q = [] \<or> prefix '' and '' (textFilter q)"
  by (simp add: textFilter_def Let_def)

lemma shape_append:
  "a = [] \<or> prefix p a \<Longrightarrow> b = [] \<or> prefix p b \<Longrightarrow> a @ b = [] \<or> prefix p (a @ b)"
  by (auto simp: prefix_def)

lemma rawFilter_shape: "rawFilter c q = [] \<or> prefix '' and '' (rawFilter c q)"
  unfolding rawFilter_def
  by (intro shape_append realmFilter_shape authFilter_shape verFilter_shape typeFilter_shape
      textFilter_shape)

text \<open>
  The output is empty, or \<^verbatim>\<open>WHERE\<close>, two spaces and the fragments without their first
  connective: \<^verbatim>\<open>substring(4)\<close> takes the four characters \<^verbatim>\<open>" and"\<close> away and
  leaves the space that followed them.
\<close>

lemma buildSqlFilter_shape:
  "buildSqlFilter c q =
     (if rawFilter c q = [] then [] else ''WHERE '' @ '' '' @ drop 5 (rawFilter c q))"
proof (cases "rawFilter c q = []")
  case True
  then show ?thesis by (simp add: buildSqlFilter_def)
next
  case False
  then obtain r where r: "rawFilter c q = '' and '' @ r"
    using rawFilter_shape[of c q] by (auto simp: prefix_def)
  show ?thesis using False by (simp add: buildSqlFilter_def r)
qed

lemma buildSqlFilter_no_dangling_and: "\<not> prefix '' and '' (buildSqlFilter c q)"
  by (simp add: buildSqlFilter_shape)

lemma noFacets_always_true: "buildSqlFilter c noFacets = []"
  by (simp add: buildSqlFilter_def rawFilter_def realmFilter_def authFilter_def verFilter_def
      typeFilter_def textFilter_def noFacets_def nonEmpty_def)

text \<open>
  The statements built on the filter append to it as it is: \<^verbatim>\<open>AND\<close> after a
  non-empty filter, a \<^verbatim>\<open>WHERE\<close> of their own after an empty one.
\<close>

lemma versionCountSql_shape:
  "versionCountSql (buildSqlFilter c q) v =
     ''SELECT COUNT(*) as count FROM Resources ''
       @ (if rawFilter c q = [] then ''WHERE ''
          else ''WHERE '' @ '' '' @ drop 5 (rawFilter c q) @ '' AND '') @ v @ '' = 1''"
  by (simp add: versionCountSql_def buildSqlFilter_shape)

subsection \<open>Refinement values\<close>

lemma hasCachedValue_known:
  "refinementTable t = Some n \<Longrightarrow> hasCachedValue c n v \<Longrightarrow> knownRefinement c t v"
  by (auto simp: hasCachedValue_def knownRefinement_def getCachedTable_def tableMember_def
      split: option.splits table.splits if_splits)

lemma not_loaded_unknown: "\<not> loaded c \<Longrightarrow> \<not> knownRefinement c t v"
  by (simp add: knownRefinement_def getCachedTable_def split: option.splits)

lemma typeFilter_unknown:
  assumes "\<not> knownRefinement c (type_f q) v"
  shows "typeFilter c (q\<lparr>rt := Some v\<rparr>) = typeFilter c (q\<lparr>rt := None\<rparr>)"
proof -
  have h: "\<And>n. refinementTable (type_f q) = Some n \<Longrightarrow> \<not> hasCachedValue c n v"
    using assms hasCachedValue_known by blast
  show ?thesis
    using h
    by (auto simp: typeFilter_def nonEmpty_def refinementTable_def hasTerminologySource_def)
qed

text \<open>
  C5. For every view type and every refinement value that is not in the known-value
  set of that view type, and for every refinement value when the cache is not loaded,
  the filter compiled with the value is the same string as the filter compiled with
  \<^verbatim>\<open>rt\<close> left out.
\<close>

theorem unknown_refinement_is_dropped:
  assumes "\<not> loaded c \<or> \<not> knownRefinement c (type_f q) v"
  shows "buildSqlFilter c (q\<lparr>rt := Some v\<rparr>) = buildSqlFilter c (q\<lparr>rt := None\<rparr>)"
proof -
  have "\<not> knownRefinement c (type_f q) v"
    using assms not_loaded_unknown by blast
  then have "typeFilter c (q\<lparr>rt := Some v\<rparr>) = typeFilter c (q\<lparr>rt := None\<rparr>)"
    by (rule typeFilter_unknown)
  then show ?thesis
    by (simp add: buildSqlFilter_def rawFilter_def rt_update)
qed

theorem unknown_refinement_is_dropped_witness:
  "\<not> knownRefinement exampleCache (Some ''rp'') ''bogus'' \<and>
   buildSqlFilter exampleCache (noFacets\<lparr>type_f := Some ''rp'', rt := Some ''bogus''\<rparr>)
     = buildSqlFilter exampleCache (noFacets\<lparr>type_f := Some ''rp'', rt := None\<rparr>)"
proof -
  have h: "\<not> knownRefinement exampleCache (Some ''rp'') ''bogus''"
    by (simp add: knownRefinement_def refinementTable_def getCachedTable_def exampleCache_def
        tableMember_def)
  then have "\<not> loaded exampleCache
      \<or> \<not> knownRefinement exampleCache (type_f (noFacets\<lparr>type_f := Some ''rp''\<rparr>)) ''bogus''"
    by simp
  from unknown_refinement_is_dropped[OF this] h show ?thesis by simp
qed

section \<open>Facet values in the query text\<close>

subsection \<open>Escaping doubles every quote\<close>

lemma doubleQuotes_concat:
  "doubleQuotes s = concat (map (\<lambda>ch. if ch = sq then [sq, sq] else [ch]) s)"
  by (induction s) simp_all

lemma sqlEscapeString_doubles_quotes:
  "sqlEscapeString (Some s) = concat (map (\<lambda>ch. if ch = sq then [sq, sq] else [ch]) s)"
  by (cases s) (simp_all add: sqlEscapeString_def doubleQuotes_concat)

subsection \<open>Reading code, literals and concatenations\<close>

lemma lex_code:
  "sq \<notin> set s \<Longrightarrow> lexSql None (s @ rest) = map_option ((@) (code s)) (lexSql None rest)"
  by (cases "lexSql None rest"; induction s) (auto simp: code_def)

lemma lex_lit:
  "rest = [] \<or> hd rest \<noteq> sq \<Longrightarrow>
   lexSql (Some lit) (doubleQuotes v @ sq # rest)
     = map_option ((#) (StringLit (lit @ v))) (lexSql None rest)"
proof (induction v arbitrary: lit)
  case Nil
  then show ?case by (cases rest) auto
next
  case (Cons ch v)
  then show ?case by simp
qed

lemma lex_append:
  "lexSql st a = Some ta \<Longrightarrow> b = [] \<or> hd b \<noteq> sq \<Longrightarrow>
   lexSql st (a @ b) = map_option ((@) ta) (lexSql None b)"
proof (induction st a arbitrary: ta rule: lexSql.induct)
  case 1
  then show ?case by (cases "lexSql None b") simp_all
next
  case (2 lit)
  then show ?case by simp
next
  case (3 ch cs)
  then show ?case by (cases "lexSql None b") (auto split: if_splits)
next
  case (4 lit ch cs)
  show ?case
  proof (cases "ch = sq")
    case False
    then show ?thesis using 4 by simp
  next
    case True
    show ?thesis
    proof (cases cs)
      case Nil
      then show ?thesis using True 4(4,5) by (cases b) auto
    next
      case (Cons ch' cs')
      show ?thesis
      proof (cases "ch' = sq")
        case True
        then show ?thesis using \<open>ch = sq\<close> Cons 4(2)[of ch' cs' ta] 4(4,5) by simp
      next
        case False
        from 4(4) \<open>ch = sq\<close> Cons False
        obtain t1 where t1: "lexSql None cs = Some t1" "ta = StringLit lit # t1"
          by auto
        have "lexSql None (cs @ b) = map_option ((@) t1) (lexSql None b)"
          using 4(3)[of ch' cs' t1] \<open>ch = sq\<close> Cons False t1 4(5) by simp
        then show ?thesis
          using \<open>ch = sq\<close> Cons False t1 by (cases "lexSql None b") simp_all
      qed
    qed
  qed
qed

lemma doubleQuotes_plain: "sq \<notin> set s \<Longrightarrow> doubleQuotes s = s"
  by (induction s) auto

lemma lex_quoted:
  "rest = [] \<or> hd rest \<noteq> sq \<Longrightarrow>
   lexSql None (quoted (doubleQuotes v) @ rest)
     = map_option ((#) (StringLit v)) (lexSql None rest)"
  using lex_lit[of rest "[]" v] by (simp add: quoted_def)

lemma lex_quoted_end: "lexSql None (quoted (doubleQuotes v)) = Some [StringLit v]"
  using lex_quoted[of "[]" v] by simp

lemma lex_value:
  "nonEmpty x \<Longrightarrow> rest = [] \<or> hd rest \<noteq> sq \<Longrightarrow>
   lexSql None (quoted (sqlEscapeString x) @ rest)
     = map_option ((#) (StringLit (the x))) (lexSql None rest)"
  using lex_quoted[of rest "the x"]
  by (auto simp: nonEmpty_def sqlEscapeString_def split: option.splits)

lemma lex_plain:
  "sq \<notin> set s \<Longrightarrow> rest = [] \<or> hd rest \<noteq> sq \<Longrightarrow>
   lexSql None (quoted s @ rest) = map_option ((#) (StringLit s)) (lexSql None rest)"
  using lex_quoted[of rest s] by (simp add: doubleQuotes_plain)

lemma lex_code_end: "sq \<notin> set s \<Longrightarrow> lexSql None s = Some (code s)"
  using lex_code[of s "[]"] by simp

lemma lex_escaped:
  "nonEmpty x \<Longrightarrow> rest = [] \<or> hd rest \<noteq> sq \<Longrightarrow>
   lexSql (Some lit) (sqlEscapeString x @ sq # rest)
     = map_option ((#) (StringLit (lit @ the x))) (lexSql None rest)"
  using lex_lit[of rest lit "the x"]
  by (auto simp: nonEmpty_def sqlEscapeString_def split: option.splits)

subsection \<open>Reading the fragments\<close>

lemma lex_realm: "lexSql None (realmFilter q) = Some (realmTokens q)"
  by (simp add: realmFilter_def realmTokens_def quoted_def lex_escaped code_def)

lemma lex_auth: "lexSql None (authFilter q) = Some (authTokens q)"
  by (simp add: authFilter_def authTokens_def quoted_def lex_escaped code_def)

lemma lex_ver: "lexSql None (verFilter q) = Some (code (verFilter q))"
  by (rule lex_code_end) (simp add: verFilter_def)

lemma lex_type: "lexSql None (typeFilter c q) = Some (typeTokens c q)"
  by (simp add: typeFilter_def typeTokens_def categoryFilter_def categoryTokens_def
      quoted_def lex_escaped code_def)

lemma lex_text: "lexSql None (textFilter q) = Some (textTokens q)"
  by (simp add: textFilter_def textTokens_def resourceFts_def codeSystemFts_def
      resourceFtsTokens_def codeSystemFtsTokens_def quoted_def lex_escaped code_def Let_def)

lemma lex_raw:
  "lexSql None (rawFilter c q)
     = Some (realmTokens q @ authTokens q @ code (verFilter q) @ typeTokens c q @ textTokens q)"
proof -
  have ok: "\<And>s. s = [] \<or> prefix '' and '' s \<Longrightarrow> s = [] \<or> hd s \<noteq> sq"
    by (auto simp: prefix_def)
  have 1: "lexSql None (typeFilter c q @ textFilter q) = Some (typeTokens c q @ textTokens q)"
    using lex_append[OF lex_type ok[OF textFilter_shape], of c q] by (simp add: lex_text)
  have 2: "lexSql None (verFilter q @ typeFilter c q @ textFilter q)
             = Some (code (verFilter q) @ typeTokens c q @ textTokens q)"
    using lex_append[OF lex_ver ok[OF shape_append[OF typeFilter_shape textFilter_shape]], of q c q]
    by (simp add: 1)
  have 3: "lexSql None (authFilter q @ verFilter q @ typeFilter c q @ textFilter q)
             = Some (authTokens q @ code (verFilter q) @ typeTokens c q @ textTokens q)"
    using lex_append[OF lex_auth
        ok[OF shape_append[OF verFilter_shape shape_append[OF typeFilter_shape textFilter_shape]]],
        of q q c q]
    by (simp add: 2)
  show ?thesis
    unfolding rawFilter_def
    using lex_append[OF lex_realm
        ok[OF shape_append[OF authFilter_shape
              shape_append[OF verFilter_shape shape_append[OF typeFilter_shape textFilter_shape]]]],
        of q q q c q]
    by (simp add: 3)
qed

text \<open>
  C6. Every facet value that \<^verbatim>\<open>buildSqlFilter\<close> puts into the query text went
  through \<^verbatim>\<open>sqlEscapeString\<close> and stands between quotes: read as SQL, the filter is
  the token list in which each of the values of \<^verbatim>\<open>realm\<close>, \<^verbatim>\<open>auth\<close>, \<^verbatim>\<open>rt\<close> and
  \<^verbatim>\<open>text\<close> is the content of a string literal, unchanged, and nothing of a value is
  read as code.
\<close>

theorem facet_values_are_escaped:
  "lexSql None (buildSqlFilter c q) = Some (filterTokens c q)"
proof (cases "rawFilter c q = []")
  case True
  then have "realmTokens q @ authTokens q @ code (verFilter q) @ typeTokens c q @ textTokens q = []"
    using lex_raw[of c q] by simp
  then show ?thesis using True by (simp add: buildSqlFilter_def filterTokens_def)
next
  case False
  then obtain r where r: "rawFilter c q = '' and '' @ r"
    using rawFilter_shape[of c q] by (auto simp: prefix_def)
  obtain ts where ts: "lexSql None r = Some ts"
    and raw: "realmTokens q @ authTokens q @ code (verFilter q) @ typeTokens c q @ textTokens q
               = code '' and '' @ ts"
    using lex_raw[of c q] unfolding r by (cases "lexSql None r") (auto simp: code_def)
  have "buildSqlFilter c q = ''WHERE  '' @ r"
    using False by (simp add: buildSqlFilter_def r)
  moreover have "filterTokens c q = code ''WHERE  '' @ ts"
    unfolding filterTokens_def Let_def raw by (simp add: code_def)
  ultimately show ?thesis
    by (simp add: ts code_def)
qed

text \<open>
  The value \<^verbatim>\<open>x' or 1=1\<close> as realm: the whole value is one literal.
\<close>

theorem facet_values_are_escaped_witness:
  "buildSqlFilter initialCache (noFacets\<lparr>realm := Some ''x' or 1=1''\<rparr>)
     = ''WHERE  realm = 'x'' @ [sq, sq] @ '' or 1=1'' @ [sq] \<and>
   lexSql None (buildSqlFilter initialCache (noFacets\<lparr>realm := Some ''x' or 1=1''\<rparr>))
     = Some (code ''WHERE  realm = '' @ [StringLit ''x' or 1=1''])"
proof -
  have f: "filterTokens initialCache (noFacets\<lparr>realm := Some ''x' or 1=1''\<rparr>)
      = code ''WHERE  realm = '' @ [StringLit ''x' or 1=1'']"
    by (simp add: filterTokens_def realmTokens_def authTokens_def verFilter_def typeTokens_def
        textTokens_def noFacets_def nonEmpty_def hasCachedValue_def initialCache_def code_def)
  have b: "buildSqlFilter initialCache (noFacets\<lparr>realm := Some ''x' or 1=1''\<rparr>)
     = ''WHERE  realm = 'x'' @ [sq, sq] @ '' or 1=1'' @ [sq]"
    by (simp add: buildSqlFilter_def rawFilter_def realmFilter_def authFilter_def verFilter_def
        typeFilter_def textFilter_def noFacets_def nonEmpty_def hasCachedValue_def
        initialCache_def sqlEscapeString_def quoted_def)
  from facet_values_are_escaped[of initialCache "noFacets\<lparr>realm := Some ''x' or 1=1''\<rparr>"]
  show ?thesis using f b by simp
qed

section \<open>Which facets pass unchecked\<close>

lemma sublist_where:
  assumes "a = [] \<or> prefix '' and '' a"
  shows "sublist x (''WHERE '' @ drop 4 (a @ '' and'' @ x @ b))"
proof (cases "a = []")
  case True
  then have "''WHERE '' @ drop 4 (a @ '' and'' @ x @ b) = ''WHERE '' @ x @ b"
    by simp
  then show ?thesis unfolding sublist_def by blast
next
  case False
  then obtain r where "a = '' and '' @ r" using assms by (auto simp: prefix_def)
  then have "''WHERE '' @ drop 4 (a @ '' and'' @ x @ b) = (''WHERE  '' @ r @ '' and'') @ x @ b"
    by simp
  then show ?thesis unfolding sublist_def by blast
qed

lemma realm_clause:
  "nonEmpty (realm q) \<Longrightarrow>
   sublist ('' realm = '' @ quoted (sqlEscapeString (realm q))) (buildSqlFilter c q)"
  using sublist_where[of "[]" "'' realm = '' @ quoted (sqlEscapeString (realm q))"
      "authFilter q @ verFilter q @ typeFilter c q @ textFilter q"]
  by (simp add: buildSqlFilter_def rawFilter_def realmFilter_def)

lemma auth_clause:
  "nonEmpty (auth q) \<Longrightarrow>
   sublist ('' authority = '' @ quoted (sqlEscapeString (auth q))) (buildSqlFilter c q)"
  using sublist_where[OF realmFilter_shape,
      of "'' authority = '' @ quoted (sqlEscapeString (auth q))" q
      "verFilter q @ typeFilter c q @ textFilter q"]
  by (simp add: buildSqlFilter_def rawFilter_def authFilter_def)

lemma verFilter_known:
  "ver q = Some v \<Longrightarrow> v \<in> set versionCodes \<Longrightarrow> verFilter q = '' and '' @ v @ '' = 1''"
  by (auto simp: verFilter_def versionCodes_def nonEmpty_def)

lemma verFilter_unknown:
  "ver q = Some v \<Longrightarrow> v \<notin> set versionCodes \<Longrightarrow> verFilter q = []"
  by (auto simp: verFilter_def versionCodes_def nonEmpty_def)

lemma ver_clause:
  assumes "ver q = Some v" "v \<in> set versionCodes"
  shows "sublist ('' '' @ v @ '' = 1'') (buildSqlFilter c q)"
proof -
  have "realmFilter q @ authFilter q = [] \<or> prefix '' and '' (realmFilter q @ authFilter q)"
    by (rule shape_append[OF realmFilter_shape authFilter_shape])
  from sublist_where[OF this, of "'' '' @ v @ '' = 1''" "typeFilter c q @ textFilter q"]
  show ?thesis
    using verFilter_known[OF assms]
    by (simp add: buildSqlFilter_def rawFilter_def)
qed

lemma ver_unknown_dropped:
  assumes "ver q = Some v" "v \<notin> set versionCodes"
  shows "buildSqlFilter c q = buildSqlFilter c (q\<lparr>ver := None\<rparr>)"
  using verFilter_unknown[OF assms]
  by (simp add: buildSqlFilter_def rawFilter_def ver_update absent_facet_fragment)

text \<open>
  The claim C9 as it is written fails for the version facet: a non-empty version
  outside the enumeration gives no clause at all, here an empty filter.
\<close>

theorem unknown_version_has_no_clause:
  "nonEmpty (Some ''R7'') \<and> buildSqlFilter initialCache (noFacets\<lparr>ver := Some ''R7''\<rparr>) = []"
  by (simp add: buildSqlFilter_def rawFilter_def realmFilter_def authFilter_def verFilter_def
      typeFilter_def textFilter_def noFacets_def nonEmpty_def hasCachedValue_def
      initialCache_def)

text \<open>
  C9, amended. Every non-empty realm and every non-empty authority, known or not,
  has its clause in the filter. The version facet is checked against the closed
  enumeration: one of the seven codes has its clause, any other value is dropped and
  the filter is the one compiled without a version.
\<close>

theorem realm_and_authority_pass_unchecked:
  "(nonEmpty (realm q) \<longrightarrow>
      sublist ('' realm = '' @ quoted (sqlEscapeString (realm q))) (buildSqlFilter c q)) \<and>
   (nonEmpty (auth q) \<longrightarrow>
      sublist ('' authority = '' @ quoted (sqlEscapeString (auth q))) (buildSqlFilter c q)) \<and>
   (ver q = Some v \<and> v \<in> set versionCodes \<longrightarrow>
      sublist ('' '' @ v @ '' = 1'') (buildSqlFilter c q)) \<and>
   (ver q = Some v \<and> v \<notin> set versionCodes \<longrightarrow>
      buildSqlFilter c q = buildSqlFilter c (q\<lparr>ver := None\<rparr>))"
  using realm_clause auth_clause ver_clause ver_unknown_dropped by blast

theorem realm_and_authority_pass_unchecked_witness:
  "sublist ('' realm = '' @ quoted ''zz'')
     (buildSqlFilter initialCache
        \<lparr> realm = Some ''zz'', auth = Some ''nobody'', ver = Some ''R4'', type_f = None,
          rt = None, text_f = None \<rparr>) \<and>
   sublist ('' authority = '' @ quoted ''nobody'')
     (buildSqlFilter initialCache
        \<lparr> realm = Some ''zz'', auth = Some ''nobody'', ver = Some ''R4'', type_f = None,
          rt = None, text_f = None \<rparr>) \<and>
   sublist '' R4 = 1''
     (buildSqlFilter initialCache
        \<lparr> realm = Some ''zz'', auth = Some ''nobody'', ver = Some ''R4'', type_f = None,
          rt = None, text_f = None \<rparr>) \<and>
   buildSqlFilter initialCache (noFacets\<lparr>ver := Some ''R7''\<rparr>)
     = buildSqlFilter initialCache (noFacets\<lparr>ver := None\<rparr>)"
proof -
  have a: "ver (noFacets\<lparr>ver := Some ''R7''\<rparr>) = Some ''R7'' \<and> ''R7'' \<notin> set versionCodes"
    by (simp add: versionCodes_def)
  show ?thesis
    using realm_and_authority_pass_unchecked[of
        "\<lparr> realm = Some ''zz'', auth = Some ''nobody'', ver = Some ''R4'', type_f = None,
           rt = None, text_f = None \<rparr>" initialCache "''R4''"]
      realm_and_authority_pass_unchecked[of "noFacets\<lparr>ver := Some ''R7''\<rparr>" initialCache "''R7''"]
      a
    by (simp add: nonEmpty_def sqlEscapeString_def versionCodes_def)
qed

section \<open>The shape of the WHERE clause\<close>

text \<open>
  C10. The claim says that the fragments follow \<^verbatim>\<open>WHERE\<close> and its space with their
  leading \<^verbatim>\<open>" and "\<close> stripped, as the comment in the source does. The code strips
  four characters, so that for the realm \<^verbatim>\<open>us\<close> the filter has two spaces after
  \<^verbatim>\<open>WHERE\<close>, not one.
\<close>

theorem where_clause_keeps_a_space:
  "buildSqlFilter initialCache (noFacets\<lparr>realm := Some ''us''\<rparr>)
     = ''WHERE '' @ '' '' @ ''realm = 'us'' @ [sq]"
  by (simp add: buildSqlFilter_def rawFilter_def realmFilter_def authFilter_def verFilter_def
      typeFilter_def textFilter_def noFacets_def nonEmpty_def hasCachedValue_def
      initialCache_def sqlEscapeString_def quoted_def)

section \<open>Properties of the summary statistics\<close>

subsection \<open>The realm breakdown\<close>

lemma realmLoop_counter:
  "snd (realmLoop rows c) = c + length (filter longCode rows)"
  by (induction rows c rule: realmLoop.induct) (auto simp: longCode_def split: prod.splits)

lemma realmLoop_items:
  "RealmEntry r n \<in> set (fst (realmLoop rows c)) \<Longrightarrow> length r \<le> 3"
  by (induction rows c rule: realmLoop.induct) (auto split: prod.splits if_splits)

lemma realmLoop_no_other:
  "OtherEntry k \<notin> set (fst (realmLoop rows c))"
  by (induction rows c rule: realmLoop.induct) (auto split: prod.splits if_splits)

text \<open>No realm code of more than three characters is listed by itself.\<close>

lemma long_realm_not_listed:
  "RealmEntry r n \<in> set (realmEntries rows) \<Longrightarrow> length r \<le> 3"
  using realmLoop_items[of r n rows 0]
  by (cases "realmLoop rows 0") (auto simp: realmEntries_def split: if_splits)

text \<open>
  The number of the entry \<^verbatim>\<open>other\<close> is the number of rows with a long code, that
  is the number of distinct long codes, whatever their counts are.
\<close>

lemma other_entry_counts_rows:
  "OtherEntry k \<in> set (realmEntries rows) \<Longrightarrow> k = length (filter longCode rows)"
  using realmLoop_counter[of rows 0] realmLoop_no_other[of k rows 0]
  by (cases "realmLoop rows 0") (auto simp: realmEntries_def split: if_splits)

lemma spec_example_realms:
  "realmEntries [(Some ''longcustomrealm'', 3), (Some ''uk'', 5), (Some ''us'', 10)]
     = [RealmEntry ''uk'' 5, RealmEntry ''us'' 10, OtherEntry 1]"
  by (simp add: realmEntries_def nonEmpty_def)

text \<open>
  C1. With one long realm code carried by three matching records and no realm facet,
  the claim expects \<^verbatim>\<open>other: 3\<close>. The loop counts the row, not its records
  (\<^verbatim>\<open>c++\<close>), and the summary has \<^verbatim>\<open>other: 1\<close>.
\<close>

theorem other_entry_is_not_the_record_count:
  "buildSummaryStats initialCache (Some realmDb) noFacets
     = Some [Heading ''By Version'', Heading ''By Authority'', Heading ''By Realm'',
             OtherEntry 1]"
  by (simp add: buildSummaryStats_def versionSection_def authoritySection_def realmSection_def
        noFacets_always_true realmEntries_def getCachedSet_def getCachedTable_def
        realmDb_def emptyDb_def realmSql_def authoritySql_def)
     (simp add: noFacets_def nonEmpty_def initialCache_def)

subsection \<open>A breakdown and its own facet\<close>




section \<open>Properties of the cache load\<close>

subsection \<open>The order of the statements\<close>

lemma bindE_Inr: "bindE m f = Inr y \<Longrightarrow> \<exists>x. m = Inr x \<and> f x = Inr y"
  by (cases m) (auto simp: bindE_def)

lemma bindE_simps [simp]:
  "bindE (Inr x) f = f x"
  "bindE (Inl er) f = Inl er"
  by (simp_all add: bindE_def)

lemma loadStep_next:
  assumes "loadStep k d m = Inr (k', m')"
  shows "k < k' \<and> k' \<le> loadDone"
  using assms
  by (auto simp: loadStep_def loadDone_def split: if_splits prod.splits dest!: bindE_Inr)

lemma loadRun_index:
  "loadRun ds n = Inr (k, m) \<Longrightarrow> k \<le> loadDone \<and> (k = loadDone \<or> n \<le> k)"
proof (induction n arbitrary: k m)
  case 0
  then show ?case by simp
next
  case (Suc n)
  from Suc.prems obtain k0 m0 where r: "loadRun ds n = Inr (k0, m0)"
    and s: "(if k0 = loadDone then Inr (k0, m0) else loadStep k0 (ds k0) m0) = Inr (k, m)"
    by (auto dest!: bindE_Inr)
  show ?case
  proof (cases "k0 = loadDone")
    case True
    then show ?thesis using s by simp
  next
    case False
    then have "loadStep k0 (ds k0) m0 = Inr (k, m)" using s by simp
    from loadStep_next[OF this] Suc.IH[OF r] False show ?thesis by auto
  qed
qed



lemma loadRun_done:
  "loadRun ds n = Inr (loadDone, m) \<Longrightarrow> loadRun ds (n + j) = Inr (loadDone, m)"
  by (induction j) simp_all

lemma loadRun_failed:
  "loadRun ds n = Inl er \<Longrightarrow> loadRun ds (n + j) = Inl er"
  by (induction j) simp_all

lemma bindE_assoc: "bindE (bindE m f) g = bindE m (\<lambda>x. bindE (f x) g)"
  by (cases m) simp_all

lemma loadStep_simps:
  "loadStep 0 d m = bindE (metadataStatement d m) (\<lambda>m'. Inr (1, m'))"
  "loadStep (Suc 0) d m = bindE (realmsStatement d m) (\<lambda>m'. Inr (2, m'))"
  "loadStep 2 d m = bindE (authoritiesStatement d m) (\<lambda>m'. Inr (3, m'))"
  "loadStep 3 d m = bindE (packagesStatement d m) (\<lambda>m'. Inr (4, m'))"
  "loadStep 4 d m =
     bindE (tableCheckStatement d m) (\<lambda>(tableExists, m'). Inr (if tableExists then 5 else 8, m'))"
  "loadStep 5 d m = bindE (profileResourcesStatement d m) (\<lambda>m'. Inr (6, m'))"
  "loadStep 6 d m = bindE (profileTypesStatement d m) (\<lambda>m'. Inr (7, m'))"
  "loadStep 7 d m = bindE (resourceTypesStatement d m) (\<lambda>m'. Inr (8, m'))"
  "loadStep 8 d m = bindE (extensionContextsStatement d m) (\<lambda>m'. Inr (9, m'))"
  "loadStep 9 d m = bindE (extensionTypesStatement d m) (\<lambda>m'. Inr (10, m'))"
  "loadStep 10 d m = bindE (txSourcesStatement d m) (\<lambda>m'. Inr (loadDone, m'))"
  by (simp_all add: loadStep_def)

lemma bindE_return [simp]: "bindE m Inr = m"
  by (cases m) simp_all

lemma bindE_cong: "(\<And>x. m = Inr x \<Longrightarrow> f x = g x) \<Longrightarrow> bindE m f = bindE m g"
  by (cases m) simp_all

lemma loadMore_0 [simp]: "loadMore ds 0 = Inr"
  by (rule ext) simp

lemma loadMore_done: "loadMore ds n (loadDone, m) = Inr (loadDone, m)"
  by (cases n) simp_all

lemma loadMore_snoc:
  "loadMore ds (Suc n) r =
     bindE (loadMore ds n r)
       (\<lambda>(k, m). if k = loadDone then Inr (k, m) else loadStep k (ds k) m)"
proof (induction n arbitrary: r)
  case 0
  then show ?case by (cases r) simp
next
  case (Suc n)
  show ?case
  proof (cases "fst r = loadDone")
    case True
    then show ?thesis by (cases r) simp
  next
    case False
    have "loadMore ds (Suc (Suc n)) r
        = bindE (loadStep (fst r) (ds (fst r)) (snd r)) (loadMore ds (Suc n))"
      using False by simp
    also have "\<dots> = bindE (loadStep (fst r) (ds (fst r)) (snd r))
        (\<lambda>r'. bindE (loadMore ds n r')
           (\<lambda>(k, m). if k = loadDone then Inr (k, m) else loadStep k (ds k) m))"
      using Suc.IH by presburger
    also have "\<dots> = bindE (loadMore ds (Suc n) r)
           (\<lambda>(k, m). if k = loadDone then Inr (k, m) else loadStep k (ds k) m)"
      using False by (simp add: bindE_assoc)
    finally show ?thesis .
  qed
qed

lemma loadRun_loadMore: "loadRun ds n = loadMore ds n (0, [])"
proof (induction n)
  case 0
  then show ?case by simp
next
  case (Suc n)
  then show ?case by (simp only: loadRun.simps loadMore_snoc)
qed

lemma loadMore_step:
  "0 < n \<Longrightarrow> k \<noteq> loadDone \<Longrightarrow>
   loadMore ds n (k, m) = bindE (loadStep k (ds k) m) (loadMore ds (n - 1))"
  by (cases n) simp_all

lemma loadRun_loadAll:
  "loadRun ds loadDone = bindE (loadAll ds) (\<lambda>m. Inr (loadDone, m))"
  unfolding loadRun_loadMore loadAll_def loadTail_def
  apply (simp add: loadDone_def loadMore_step loadStep_def bindE_assoc
      loadMore_done[unfolded loadDone_def] cong: if_cong)
  apply (intro bindE_cong)
  apply (simp add: loadDone_def loadMore_step loadStep_def bindE_assoc
      loadMore_done[unfolded loadDone_def] split: prod.splits)
  done

subsection \<open>Sets and maps in insertion order\<close>

lemma setAdd_set [simp]: "set (setAdd xs x) = insert x (set xs)"
  by (auto simp: setAdd_def)

lemma setAdd_distinct [simp]: "distinct (setAdd xs x) = distinct xs"
  by (auto simp: setAdd_def)



lemma mapSet_map_of [simp]: "map_of (mapSet kvs k v) = (map_of kvs)(k \<mapsto> v)"
  by (induction kvs k v rule: mapSet.induct) (auto simp: fun_eq_iff)

lemma mapSet_keys:
  "map fst (mapSet kvs k v) = (if k \<in> fst ` set kvs then map fst kvs else map fst kvs @ [k])"
  by (induction kvs k v rule: mapSet.induct) (auto simp: image_iff)

lemma mapSet_distinct [simp]: "distinct (map fst (mapSet kvs k v)) = distinct (map fst kvs)"
  by (simp add: mapSet_keys)







subsection \<open>What the statements add\<close>















lemma buildCacheWith_loadAll:
  "buildCacheWith t ds = bindE (loadAll ds) (\<lambda>m. Inr (newCacheOf t m))"
  unfolding buildCacheWith_def loadRun_loadAll by (simp add: bindE_assoc)


section \<open>Properties of the dataset lifecycle\<close>

subsection \<open>A call that runs alone\<close>

lemma settle_numeral:
  "settle (numeral k) e p s = (case stepCall e p s of (p', s') \<Rightarrow> settle (pred_numeral k) e p' s')"
  by (simp add: numeral_eq_Suc)

lemma settle_Returned [simp]: "settle n e Returned s = (Returned, s)"
  by (induction n) (simp_all add: stepCall_def)

lemma settle_Threw [simp]: "settle n e (Threw er) s = (Threw er, s)"
  by (induction n) (simp_all add: stepCall_def)

lemma settle_NeverSettles [simp]: "settle n e NeverSettles s = (NeverSettles, s)"
  by (induction n) (simp_all add: stepCall_def)

lemma settle_add:
  "settle (n + j) e p s = (case settle n e p s of (p', s') \<Rightarrow> settle j e p' s')"
  by (induction n arbitrary: p s) (simp_all split: prod.splits)

text \<open>
  A load whose handle stays in place follows the stepwise load on the database of
  that handle.
\<close>

lemma settle_Loading:
  assumes "xigDb s = Some h" "k < loadDone"
  shows "settle n e (Loading k m h) s =
     (case loadMore (\<lambda>j. dbOf e h) n (k, m) of
        Inl er \<Rightarrow> (Returned, s\<lparr> cacheLoadInProgress := False \<rparr>)
      | Inr (k', m') \<Rightarrow>
          if k' = loadDone
          then (Returned, s\<lparr> configCache := newCacheOf (now e) m', cacheLoadInProgress := False \<rparr>)
          else (Loading k' m' h, s))"
  using assms(2)
proof (induction n arbitrary: k m)
  case 0
  then show ?case by simp
next
  case (Suc n)
  show ?case
  proof (cases "loadStep k (dbOf e h) m")
    case (Inl er)
    then show ?thesis using Suc.prems by (simp add: stepCall_def queryDone_def)
  next
    case (Inr r)
    obtain k' m' where r: "r = (k', m')" by (cases r)
    from loadStep_next[OF Inr[unfolded r]] have k': "k' \<le> loadDone" by simp
    show ?thesis
    proof (cases "k' = loadDone")
      case True
      then show ?thesis using Suc.prems Inr r
        by (simp add: stepCall_def queryDone_def loadMore_done)
    next
      case False
      with k' have "k' < loadDone" by simp
      from Suc.IH[OF this] show ?thesis using Suc.prems Inr r False assms(1)
        by (simp add: stepCall_def queryDone_def)
    qed
  qed
qed

lemma loadRun_loadDone:
  "loadRun ds loadDone = Inr (k, m) \<Longrightarrow> k = loadDone"
  using loadRun_index[of ds loadDone k m] by auto

lemma settle_whole_load:
  assumes "xigDb s = Some h" "loadDone \<le> n"
  shows "settle n e (Loading 0 [] h) s =
     (Returned,
      case buildCache (now e) (dbOf e h) of
        Inl er \<Rightarrow> s\<lparr> cacheLoadInProgress := False \<rparr>
      | Inr c \<Rightarrow> s\<lparr> configCache := c, cacheLoadInProgress := False \<rparr>)"
proof -
  obtain j where n: "n = loadDone + j" using assms(2) by (auto simp: le_iff_add)
  have lt: "0 < loadDone" by (simp add: loadDone_def)
  have more: "loadMore (\<lambda>j. dbOf e h) n (0, []) = loadRun (\<lambda>j. dbOf e h) (loadDone + j)"
    by (simp add: n loadRun_loadMore)
  show ?thesis
  proof (cases "loadRun (\<lambda>j. dbOf e h) loadDone")
    case (Inl er)
    from loadRun_failed[OF this] have "loadRun (\<lambda>j. dbOf e h) (loadDone + j) = Inl er" .
    then show ?thesis
      unfolding settle_Loading[OF assms(1) lt] more
      using Inl by (simp add: buildCache_def buildCacheWith_def)
  next
    case (Inr r)
    obtain k m where r: "r = (k, m)" by (cases r)
    from loadRun_loadDone[OF Inr[unfolded r]] have k: "k = loadDone" .
    from loadRun_done[OF Inr[unfolded r k]]
    have "loadRun (\<lambda>j. dbOf e h) (loadDone + j) = Inr (loadDone, m)" .
    then show ?thesis
      unfolding settle_Loading[OF assms(1) lt] more
      using Inr r k by (simp add: buildCache_def buildCacheWith_def)
  qed
qed

lemma state_flag_False: "\<not> cacheLoadInProgress s \<Longrightarrow> s\<lparr> cacheLoadInProgress := False \<rparr> = s"
  by simp


subsection \<open>A refresh that runs alone\<close>

lemma dbOf_opened [simp]: "dbOf e (opened f True) = engine e f"
  by (simp add: dbOf_def opened_def)

lemma settle_open_and_load:
  assumes "xigDb s = Some (opened g True)" "\<not> cacheLoadInProgress s" "loadDone < n"
  shows "settle n e (Opening pl True) s = (Returned, withCacheOf e g s)"
proof -
  obtain n' where n: "n = Suc n'" and n': "loadDone \<le> n'"
    using assms(3) by (cases n) auto
  have x: "xigDb (s\<lparr> cacheLoadInProgress := True \<rparr>) = Some (opened g True)"
    using assms(1) by simp
  show ?thesis
    unfolding n
    using assms(1,2)
    by (simp add: stepCall_def openDone_def loadConfigCache_def settle_whole_load[OF x n']
        withCacheOf_def split: sum.splits)
qed




lemma tmpFile_None_update: "tmpFile s = None \<Longrightarrow> s\<lparr> tmpFile := None \<rparr> = s"
  by simp

lemma settle_more:
  assumes "settle n e p s = (p', s')" "p' = Returned \<or> p' = NeverSettles \<or> (\<exists>er. p' = Threw er)"
    "n \<le> k"
  shows "settle k e p s = (p', s')"
proof -
  obtain j where k: "k = n + j" using assms(3) by (auto simp: le_iff_add)
  show ?thesis unfolding k settle_add assms(1) using assms(2) by auto
qed

text \<open>
  A refresh whose steps all work, called in any state of the module: it installs its
  file and opens it, whatever was there.
\<close>

lemma download_works:
  assumes "responses e 0 = Ok200 (Finished f)"
  shows "\<exists>i s2. settle 2 e (Downloading 0) s = (Validating f, s2) \<and> tmpFile s2 = Some (i, f) \<and>
     xigDb s2 = xigDb s \<and> cacheLoadInProgress s2 = cacheLoadInProgress s \<and>
     configCache s2 = configCache s"
  using assms
  by (cases "tmpFile s")
     (auto simp: numeral_eq_Suc stepCall_def responseDone_def bodyDone_def writeInode_def
        downloadDone_def)

lemma swapFiles_works:
  assumes "unlinkDbOk e" "renameOk e" "opens e f" "tmpFile s = Some (i, f)"
  shows "swapFiles e (s\<lparr> xigDb := None \<rparr>) =
     (Opening InTry True,
      s\<lparr> xigDb := Some (opened f True), dbFile := Some (i, f), tmpFile := None \<rparr>)"
  using assms by (simp add: swapFiles_def initializeDatabase_def Let_def opened_def)

lemma swapFiles_xigDb_None: "xigDb s = None \<Longrightarrow> s\<lparr> xigDb := None \<rparr> = s"
  by simp

lemma swap_works:
  assumes "validates e f" "unlinkDbOk e" "renameOk e" "opens e f" "tmpFile s = Some (i, f)"
  shows "settle 2 e (Validating f) s = (Opening InTry True,
      s\<lparr> xigDb := Some (opened f True), dbFile := Some (i, f), tmpFile := None \<rparr>) \<or>
    settle 1 e (Validating f) s = (Opening InTry True,
      s\<lparr> xigDb := Some (opened f True), dbFile := Some (i, f), tmpFile := None \<rparr>)"
proof (cases "xigDb s")
  case None
  have "swapFiles e s = swapFiles e (s\<lparr> xigDb := None \<rparr>)"
    using None by (simp add: swapFiles_xigDb_None)
  then show ?thesis
    using None assms(1) swapFiles_works[OF assms(2,3,4,5)]
    by (simp add: stepCall_def validationDone_def)
next
  case (Some h)
  have "swapFiles e (s\<lparr> xigDb := Some (h\<lparr> closed := True \<rparr>), xigDb := None \<rparr>)
      = swapFiles e (s\<lparr> xigDb := None \<rparr>)" by simp
  then show ?thesis
    using Some assms(1) swapFiles_works[OF assms(2,3,4,5)]
    by (simp add: numeral_eq_Suc stepCall_def validationDone_def closeDone_def)
qed

lemma open_works:
  assumes "xigDb s = Some (opened f True)"
  shows "\<exists>s'. settle 12 e (Opening InTry True) s = (Returned, s') \<and> xigDb s' = xigDb s \<and>
     dbFile s' = dbFile s \<and> tmpFile s' = tmpFile s \<and> (cacheLoadInProgress s \<longrightarrow> s' = s)"
proof (cases "cacheLoadInProgress s")
  case True
  then show ?thesis
    by (simp add: settle_numeral stepCall_def openDone_def loadConfigCache_def)
next
  case False
  have "loadDone < 12" by (simp add: loadDone_def)
  from settle_open_and_load[OF assms False this]
  show ?thesis using False by (simp add: withCacheOf_def split: sum.splits)
qed

lemma refresh_works:
  assumes "refreshWorks e f"
  shows "\<exists>i s'. updateAlone e s = (Returned, s') \<and> dbFile s' = Some (i, f) \<and>
     xigDb s' = Some (opened f True) \<and> tmpFile s' = None \<and>
     (cacheLoadInProgress s \<longrightarrow> configCache s' = configCache s \<and> cacheLoadInProgress s')"
proof -
  from assms have a: "responses e 0 = Ok200 (Finished f)" "validates e f" "unlinkDbOk e"
    "renameOk e" "opens e f" by (simp_all add: refreshWorks_def)
  from download_works[OF a(1), of s] obtain i s2 where
    d: "settle 2 e (Downloading 0) s = (Validating f, s2)" and t: "tmpFile s2 = Some (i, f)"
    and k: "cacheLoadInProgress s2 = cacheLoadInProgress s" "configCache s2 = configCache s"
    by blast
  define s4 where "s4 = s2\<lparr> xigDb := Some (opened f True), dbFile := Some (i, f), tmpFile := None \<rparr>"
  have "\<exists>n\<le>2. settle n e (Validating f) s2 = (Opening InTry True, s4)"
    using swap_works[OF a(2,3,4,5) t] unfolding s4_def
  proof
    assume "settle 2 e (Validating f) s2 = (Opening InTry True,
      s2\<lparr> xigDb := Some (opened f True), dbFile := Some (i, f), tmpFile := None \<rparr>)"
    then show "\<exists>n\<le>2. settle n e (Validating f) s2 = (Opening InTry True,
      s2\<lparr> xigDb := Some (opened f True), dbFile := Some (i, f), tmpFile := None \<rparr>)"
      by (intro exI[of _ 2]) simp
  next
    assume "settle 1 e (Validating f) s2 = (Opening InTry True,
      s2\<lparr> xigDb := Some (opened f True), dbFile := Some (i, f), tmpFile := None \<rparr>)"
    then show "\<exists>n\<le>2. settle n e (Validating f) s2 = (Opening InTry True,
      s2\<lparr> xigDb := Some (opened f True), dbFile := Some (i, f), tmpFile := None \<rparr>)"
      by (intro exI[of _ 1]) simp
  qed
  then obtain n where
    n: "n \<le> 2" and v: "settle n e (Validating f) s2 = (Opening InTry True, s4)"
    by blast
  have x: "xigDb s4 = Some (opened f True)" by (simp add: s4_def)
  from open_works[OF x, of e] obtain s' where
    o: "settle 12 e (Opening InTry True) s4 = (Returned, s')" and
    f: "xigDb s' = xigDb s4" "dbFile s' = dbFile s4" "tmpFile s' = tmpFile s4"
      "cacheLoadInProgress s4 \<longrightarrow> s' = s4" by blast
  have "settle (2 + (n + 12)) e (Downloading 0) s =
      (case settle 2 e (Downloading 0) s of (p1, s1) \<Rightarrow> settle (n + 12) e p1 s1)"
    by (rule settle_add)
  also have "\<dots> = settle (n + 12) e (Validating f) s2"
    by (simp only: d prod.case)
  also have "\<dots> = (case settle n e (Validating f) s2 of (p1, s1) \<Rightarrow> settle 12 e p1 s1)"
    by (rule settle_add)
  also have "\<dots> = (Returned, s')"
    by (simp only: v o prod.case)
  finally have all: "settle (2 + (n + 12)) e (Downloading 0) s = (Returned, s')" .
  have "2 + (n + 12) \<le> 24" using n by simp
  from settle_more[OF all _ this] have "updateAlone e s = (Returned, s')"
    unfolding updateAlone_def by simp
  moreover have "cacheLoadInProgress s \<longrightarrow> configCache s' = configCache s \<and> cacheLoadInProgress s'"
    using f(4) k by (auto simp: s4_def)
  ultimately show ?thesis using f(1,2,3) by (auto simp: s4_def)
qed

subsection \<open>Calls among other calls\<close>

lemma run_Nil [simp]: "run [] sys = sys"
  by (simp add: run_def)

lemma run_Cons [simp]: "run (ev # evs) sys = run evs (occur ev sys)"
  by (simp add: run_def)

lemma run_append: "run (evs @ evs') sys = run evs' (run evs sys)"
  by (simp add: run_def)

text \<open>A call that goes on \<open>n\<close> times in a row does what it does alone.\<close>

lemma run_alone:
  assumes "i < length (calls sys)" "calls sys ! i = (e, p)" "settle n e p (shared sys) = (p', s')"
  shows "run (replicate n (Resumes i)) sys = \<lparr> shared = s', calls = (calls sys)[i := (e, p')] \<rparr>"
  using assms
proof (induction n arbitrary: sys p)
  case 0
  then have "(calls sys)[i := (e, p')] = calls sys" by (simp add: list_update_same_conv)
  with 0 show ?case by simp
next
  case (Suc n)
  obtain p1 s1 where step: "stepCall e p (shared sys) = (p1, s1)" by (cases "stepCall e p (shared sys)")
  let ?sys1 = "\<lparr> shared = s1, calls = (calls sys)[i := (e, p1)] \<rparr>"
  have d: "deliver i sys = ?sys1"
    using Suc.prems(1,2) step by (simp add: deliver_def)
  have "run (replicate n (Resumes i)) ?sys1 =
      \<lparr> shared = s', calls = (calls ?sys1)[i := (e, p')] \<rparr>"
    using Suc.prems step by (intro Suc.IH[where p = p1]) simp_all
  then show ?case by (simp add: d)
qed

lemma calls_updateXigDatabase [simp]:
  "calls (updateXigDatabase e sys) = calls sys @ [(e, Downloading 0)]"
  "shared (updateXigDatabase e sys) = shared sys"
  by (simp_all add: updateXigDatabase_def)

text \<open>What has stopped stays stopped, whatever else happens.\<close>

lemma occur_keeps_length: "length (calls sys) \<le> length (calls (occur ev sys))"
  by (cases ev) (auto simp: initializeXigModule_def deliver_def Let_def split: prod.splits)

lemma occur_stuck:
  assumes "i < length (calls sys)" "calls sys ! i = (e, p)" "\<And>s. stepCall e p s = (p, s)"
  shows "calls (occur ev sys) ! i = (e, p)"
proof (cases ev)
  case (Starts e')
  then show ?thesis using assms(1,2)
    by (simp add: initializeXigModule_def Let_def nth_append split: prod.splits)
next
  case (Updates e')
  then show ?thesis using assms(1,2) by (simp add: nth_append)
next
  case (Resumes j)
  show ?thesis
  proof (cases "j = i")
    case True
    then show ?thesis using Resumes assms by (simp add: deliver_def)
  next
    case False
    then show ?thesis using Resumes assms(1,2)
      by (auto simp: deliver_def Let_def split: prod.splits)
  qed
qed

lemma run_stuck:
  assumes "i < length (calls sys)" "calls sys ! i = (e, p)" "\<And>s. stepCall e p s = (p, s)"
  shows "i < length (calls (run evs sys)) \<and> calls (run evs sys) ! i = (e, p)"
  using assms(1,2)
proof (induction evs arbitrary: sys)
  case Nil
  then show ?case by simp
next
  case (Cons ev evs)
  have "i < length (calls (occur ev sys))"
    using Cons.prems(1) occur_keeps_length[of sys ev] by simp
  moreover have "calls (occur ev sys) ! i = (e, p)"
    using occur_stuck[OF Cons.prems assms(3)] .
  ultimately show ?case using Cons.IH by simp
qed

subsection \<open>What is published\<close>

text \<open>Only the completion of the last statement of a load assigns \<^verbatim>\<open>configCache\<close>.\<close>

lemma partialLoad_simps [simp]:
  "partialLoad (Downloading k)" "partialLoad (Streaming b i)" "partialLoad (Validating f)"
  "partialLoad Closing" "partialLoad (Opening pl ok)" "partialLoad Returned"
  "partialLoad (Threw er)" "partialLoad NeverSettles" "partialLoad (Loading 0 [] h)"
  by (simp_all add: partialLoad_def loadDone_def exI[of _ 0])

lemma initializeDatabase_quiet:
  "initializeDatabase e pl s = (p', s') \<Longrightarrow> configCache s' = configCache s \<and> partialLoad p'"
  by (auto simp: initializeDatabase_def split: option.splits)

lemma catchBlock_quiet:
  "catchBlock e s = (p', s') \<Longrightarrow> configCache s' = configCache s \<and> partialLoad p'"
  by (auto simp: catchBlock_def Let_def split: if_splits dest!: initializeDatabase_quiet)

lemma loadConfigCache_quiet:
  "loadConfigCache e s = (p', s') \<Longrightarrow> configCache s' = configCache s \<and> partialLoad p'"
  by (auto simp: loadConfigCache_def split: if_splits option.splits)

lemma openDone_quiet:
  "openDone e pl ok s = (p', s') \<Longrightarrow> configCache s' = configCache s \<and> partialLoad p'"
  by (auto simp: openDone_def split: if_splits place.splits
      dest!: loadConfigCache_quiet catchBlock_quiet)

lemma swapFiles_quiet:
  "swapFiles e s = (p', s') \<Longrightarrow> configCache s' = configCache s \<and> partialLoad p'"
  by (auto simp: swapFiles_def Let_def split: if_splits
      dest!: initializeDatabase_quiet catchBlock_quiet)

lemma closeDone_quiet:
  "closeDone e s = (p', s') \<Longrightarrow> configCache s' = configCache s \<and> partialLoad p'"
  by (auto simp: closeDone_def dest!: swapFiles_quiet)

lemma validationDone_quiet:
  "validationDone e f s = (p', s') \<Longrightarrow> configCache s' = configCache s \<and> partialLoad p'"
  by (auto simp: validationDone_def split: if_splits option.splits
      dest!: swapFiles_quiet catchBlock_quiet)

lemma downloadDone_quiet:
  "downloadDone e s = (p', s') \<Longrightarrow> configCache s' = configCache s \<and> partialLoad p'"
  by (auto simp: downloadDone_def split: option.splits dest!: catchBlock_quiet)

lemma bodyDone_quiet:
  "bodyDone e b i s = (p', s') \<Longrightarrow> configCache s' = configCache s \<and> partialLoad p'"
  by (auto simp: bodyDone_def split: body.splits dest!: catchBlock_quiet downloadDone_quiet)

lemma responseDone_quiet:
  "responseDone e k s = (p', s') \<Longrightarrow> configCache s' = configCache s \<and> partialLoad p'"
  by (auto simp: responseDone_def split: response.splits if_splits option.splits
      dest!: catchBlock_quiet)

lemma queryDone_cases:
  assumes "queryDone e k m h s = (p', s')"
  shows "(configCache s' = configCache s \<and>
          (p' = Returned \<or> (\<exists>k' m' h'. p' = Loading k' m' h' \<and> k' \<noteq> loadDone \<and>
             loadStep k (dbOf e h) m = Inr (k', m')))) \<or>
         (\<exists>m'. loadStep k (dbOf e h) m = Inr (loadDone, m') \<and> p' = Returned \<and>
            configCache s' = newCacheOf (now e) m')"
  using assms
  by (auto simp: queryDone_def split: sum.splits prod.splits if_splits option.splits)

lemma stepCall_assigns:
  assumes "stepCall e p s = (p', s')" "configCache s' \<noteq> configCache s"
  shows "\<exists>k m h m'. p = Loading k m h \<and> loadStep k (dbOf e h) m = Inr (loadDone, m') \<and>
     configCache s' = newCacheOf (now e) m'"
proof (cases p)
  case (Loading k m h)
  with assms queryDone_cases[of e k m h s p' s'] show ?thesis
    by (auto simp: stepCall_def)
qed (use assms in \<open>auto simp: stepCall_def dest!: responseDone_quiet bodyDone_quiet
      validationDone_quiet closeDone_quiet openDone_quiet\<close>)





subsection \<open>Every call comes to an end within 24 continuations\<close>

lemma rank_simps [simp]:
  "rank (Downloading k) = 18 + (6 - k)" "rank (Streaming b i) = 17" "rank (Validating f) = 16"
  "rank Closing = 15" "rank (Opening InTry ok) = 14" "rank (Opening InCatch ok) = 13"
  "rank (Opening AtStart ok) = 13" "rank (Loading k m h) = 1 + (11 - k)" "rank Returned = 0"
  "rank (Threw er) = 0" "rank NeverSettles = 0"
  by (simp_all add: rank_def)

lemma rank_0: "rank p = 0 \<longleftrightarrow> p = Returned \<or> p = NeverSettles \<or> (\<exists>er. p = Threw er)"
  by (cases p) (auto simp: rank_def split: place.splits)

lemma initializeDatabase_rank:
  "initializeDatabase e pl s = (p', s') \<Longrightarrow> rank p' \<le> rank (Opening pl True)"
  by (cases pl) (auto simp: initializeDatabase_def split: option.splits)

lemma catchBlock_rank: "catchBlock e s = (p', s') \<Longrightarrow> rank p' \<le> 13"
  by (auto simp: catchBlock_def Let_def split: if_splits dest!: initializeDatabase_rank)

lemma loadConfigCache_rank: "loadConfigCache e s = (p', s') \<Longrightarrow> rank p' \<le> 12"
  by (auto simp: loadConfigCache_def split: if_splits option.splits)

lemma openDone_rank: "openDone e pl ok s = (p', s') \<Longrightarrow> rank p' < rank (Opening pl ok)"
  by (cases pl)
     (auto simp: openDone_def split: if_splits dest!: loadConfigCache_rank catchBlock_rank)

lemma swapFiles_rank: "swapFiles e s = (p', s') \<Longrightarrow> rank p' \<le> 14"
  by (auto simp: swapFiles_def Let_def split: if_splits
      dest!: initializeDatabase_rank catchBlock_rank)

lemma validationDone_rank: "validationDone e f s = (p', s') \<Longrightarrow> rank p' \<le> 15"
  by (auto simp: validationDone_def split: if_splits option.splits
      dest!: swapFiles_rank catchBlock_rank)

lemma downloadDone_rank: "downloadDone e s = (p', s') \<Longrightarrow> rank p' \<le> 16"
  by (auto simp: downloadDone_def split: option.splits dest!: catchBlock_rank)

lemma bodyDone_rank: "bodyDone e b i s = (p', s') \<Longrightarrow> rank p' \<le> 16"
  by (auto simp: bodyDone_def split: body.splits dest!: catchBlock_rank downloadDone_rank)

lemma responseDone_rank: "responseDone e k s = (p', s') \<Longrightarrow> rank p' < rank (Downloading k)"
  by (auto simp: responseDone_def maxRedirects_def split: response.splits if_splits option.splits
      dest!: catchBlock_rank)

lemma queryDone_rank: "queryDone e k m h s = (p', s') \<Longrightarrow> rank p' < rank (Loading k m h)"
proof -
  assume q: "queryDone e k m h s = (p', s')"
  from queryDone_cases[OF q] show ?thesis
  proof (elim disjE conjE exE)
    fix k' m' h'
    assume p': "p' = Loading k' m' h'" and n: "k' \<noteq> loadDone"
      and stp: "loadStep k (dbOf e h) m = Inr (k', m')"
    from loadStep_next[OF stp] n have "k < k'" "k' < 11" by (simp_all add: loadDone_def)
    then show ?thesis by (simp add: p')
  qed simp_all
qed

lemma stepCall_rank:
  assumes "stepCall e p s = (p', s')" "rank p \<noteq> 0"
  shows "rank p' < rank p"
  using assms
  by (cases p)
     (auto simp: stepCall_def closeDone_def
        dest!: responseDone_rank bodyDone_rank validationDone_rank swapFiles_rank openDone_rank
          queryDone_rank)

lemma settle_rank: "rank p \<le> n \<Longrightarrow> rank (fst (settle n e p s)) = 0"
proof (induction n arbitrary: p s)
  case 0
  then show ?case by simp
next
  case (Suc n)
  obtain p' s' where stp: "stepCall e p s = (p', s')" by (cases "stepCall e p s")
  show ?case
  proof (cases "rank p = 0")
    case True
    then show ?thesis using rank_0[of p] settle_Returned[of "Suc n"] settle_NeverSettles[of "Suc n"]
        settle_Threw[of "Suc n"] by (auto simp del: settle.simps)
  next
    case False
    from stepCall_rank[OF stp False] Suc.prems have "rank p' \<le> n" by simp
    from Suc.IH[OF this] show ?thesis by (simp add: stp)
  qed
qed

lemma updateAlone_ends:
  "fst (updateAlone e s) = Returned \<or> fst (updateAlone e s) = NeverSettles \<or>
   (\<exists>er. fst (updateAlone e s) = Threw er)"
  using settle_rank[of "Downloading 0" 24 e s] by (simp add: updateAlone_def rank_0)

subsection \<open>The examples\<close>

lemma catalogue_queries:
  "queryPairs catalogueDb ''SELECT Name, Value FROM Metadata''
     = Inr [(Some ''date'', Some ''2024''), (Some ''date'', Some ''2025'')]"
  "queryCodes catalogueDb ''SELECT Code FROM Realms''
     = Inr [Some ''us'', Some ''uv'', Some ''europe'', Some ''us'']"
  "queryCodes catalogueDb ''SELECT Code FROM Authorities'' = Inr [Some ''hl7'', Some ''ihe'']"
  "queryPackages catalogueDb ''SELECT PackageKey, Id, PID, Web, Canonical FROM Packages''
     = Inr [corePackage]"
  "queryCodes catalogueDb tableCheckQuery = Inr [Some ''Resources'']"
  "queryCodes catalogueDb profileResourceQuery
     = Inr [Some ''Patient'', Some '' '', None, Some ''Patient'']"
  "queryCodes catalogueDb profileTypeQuery = Inr []"
  "queryCodes catalogueDb ''SELECT DISTINCT ResourceType FROM Resources'' = Inr []"
  "queryCodes catalogueDb ''SELECT DISTINCT Code FROM Categories WHERE Mode = 2'' = Inr []"
  "queryCodes catalogueDb ''SELECT DISTINCT Code FROM Categories WHERE Mode = 3'' = Inr []"
  "queryPairs catalogueDb ''SELECT Code, Display FROM TxSource'' = Inr []"
  by (simp_all add: catalogueDb_def tableCheckQuery_def profileResourceQuery_def
      profileTypeQuery_def quoted_def)

lemma catalogue_statements:
  "metadataStatement catalogueDb m
     = Inr (mapSet m ''metadata'' (MapTable [(Some ''date'', Some ''2025'')]))"
  "realmsStatement catalogueDb m = Inr (mapSet m ''realms'' (SetTable [Some ''us'', Some ''uv'']))"
  "authoritiesStatement catalogueDb m
     = Inr (mapSet m ''authorities'' (SetTable [Some ''hl7'', Some ''ihe'']))"
  "packagesStatement catalogueDb m
     = Inr (mapSet (mapSet m ''packages'' (PackageMap [(1, corePackage)]))
         ''packagesById'' (PackageIdMap [(''hl7.fhir.r4.core|4.0.1'', corePackage)]))"
  "tableCheckStatement catalogueDb m = Inr (True, m)"
  "profileResourcesStatement catalogueDb m
     = Inr (mapSet m ''profileResources'' (SetTable [Some ''Patient'']))"
  "profileTypesStatement catalogueDb m = Inr (mapSet m ''profileTypes'' (SetTable []))"
  "resourceTypesStatement catalogueDb m = Inr (mapSet m ''resourceTypes'' (SetTable []))"
  "extensionContextsStatement catalogueDb m = Inr (mapSet m ''extensionContexts'' (SetTable []))"
  "extensionTypesStatement catalogueDb m = Inr (mapSet m ''extensionTypes'' (SetTable []))"
  "txSourcesStatement catalogueDb m
     = Inr (mapSet (mapSet (mapSet m ''txSources'' (MapTable []))
         ''versions'' (SetTable (map Some versionCodes))) ''types'' (MapTable fixedTypes))"
  by (simp_all add: metadataStatement_def realmsStatement_def authoritiesStatement_def
      packagesStatement_def tableCheckStatement_def profileResourcesStatement_def
      profileTypesStatement_def resourceTypesStatement_def extensionContextsStatement_def
      extensionTypesStatement_def txSourcesStatement_def catalogue_queries mapRows_def
      setAdd_def keepsType_def nonEmpty_def jsWhitespace_def corePackage_def replaceHash_def
      versionCodes_def)

lemma catalogue_built: "buildCache t catalogueDb = Inr (catalogueSnapshot t)"
  by (simp add: buildCache_def buildCacheWith_loadAll loadAll_def loadTail_def
      catalogue_statements newCacheOf_def catalogueSnapshot_def)



lemma baseEnv_simps [simp]:
  "now baseEnv = 7" "responses baseEnv k = BadStatus" "validates baseEnv f" "opens baseEnv f"
  "unlinkDbOk baseEnv" "renameOk baseEnv" "unlinkTmpOk baseEnv"
  "engine baseEnv f = (if f = 1 then catalogueDb else faultyDb)"
  by (simp_all add: baseEnv_def)

lemma goodEnv_simps [simp]:
  "now goodEnv = 9" "responses goodEnv k = Ok200 (Finished 2)" "validates goodEnv f"
  "opens goodEnv f" "unlinkDbOk goodEnv" "renameOk goodEnv" "unlinkTmpOk goodEnv"
  "engine goodEnv f = (if f = 1 then catalogueDb else faultyDb)"
  by (simp_all add: goodEnv_def)

lemma slowEnv_simps [simp]:
  "now slowEnv = 9" "responses slowEnv k = Ok200 Aborted" "validates slowEnv f"
  "opens slowEnv f" "unlinkDbOk slowEnv" "renameOk slowEnv" "unlinkTmpOk slowEnv"
  "engine slowEnv f = (if f = 1 then catalogueDb else faultyDb)"
  by (simp_all add: slowEnv_def)

lemma renameEnv_simps [simp]:
  "now renameEnv = 9" "responses renameEnv k = Ok200 (Finished 2)" "validates renameEnv f"
  "opens renameEnv f" "unlinkDbOk renameEnv" "\<not> renameOk renameEnv" "unlinkTmpOk renameEnv"
  "engine renameEnv f = (if f = 1 then catalogueDb else faultyDb)"
  by (simp_all add: renameEnv_def)

lemma deleteEnv_simps [simp]:
  "now deleteEnv = 9" "responses deleteEnv k = Ok200 (Finished 2)" "validates deleteEnv f"
  "opens deleteEnv f" "\<not> unlinkDbOk deleteEnv" "renameOk deleteEnv" "unlinkTmpOk deleteEnv"
  "engine deleteEnv f = (if f = 1 then catalogueDb else faultyDb)"
  by (simp_all add: deleteEnv_def)

lemma servingState_simps [simp]:
  "xigDb servingState = Some (opened 1 True)" "dbFile servingState = Some (0, 1)"
  "tmpFile servingState = None" "nextInode servingState = 1"
  "configCache servingState = catalogueSnapshot 7" "\<not> cacheLoadInProgress servingState"
  by (simp_all add: servingState_def)

lemma lockedEnv_simps [simp]:
  "now lockedEnv = 9" "responses lockedEnv k = Ok200 (Finished 2)" "validates lockedEnv f"
  "\<not> opens lockedEnv f" "\<not> unlinkDbOk lockedEnv" "renameOk lockedEnv" "unlinkTmpOk lockedEnv"
  "engine lockedEnv f = (if f = 1 then catalogueDb else faultyDb)"
  by (simp_all add: lockedEnv_def)

text \<open>The initialisation of the module brings it to the serving state.\<close>

lemma startUp_serving: "run startUp \<lparr> shared = diskState, calls = [] \<rparr> = serving"
proof -
  let ?s = "diskState\<lparr> xigDb := Some (opened 1 True) \<rparr>"
  let ?sys = "\<lparr> shared = ?s, calls = [(baseEnv, Opening AtStart True)] \<rparr>"
  have i: "initializeXigModule baseEnv \<lparr> shared = diskState, calls = [] \<rparr> = ?sys"
    by (simp add: initializeXigModule_def initializeDatabase_def diskState_def initialState_def
        opened_def)
  have "settle 12 baseEnv (Opening AtStart True) ?s = (Returned, withCacheOf baseEnv 1 ?s)"
    by (rule settle_open_and_load) (simp_all add: diskState_def initialState_def loadDone_def)
  also have "withCacheOf baseEnv 1 ?s = servingState"
    by (simp add: withCacheOf_def catalogue_built servingState_def diskState_def initialState_def)
  finally have s: "settle 12 baseEnv (Opening AtStart True) (shared ?sys) = (Returned, servingState)"
    by simp
  have "run (replicate 12 (Resumes 0)) ?sys
      = \<lparr> shared = servingState, calls = (calls ?sys)[0 := (baseEnv, Returned)] \<rparr>"
    by (rule run_alone[OF _ _ s]) simp_all
  then show ?thesis by (simp add: startUp_def i serving_def)
qed

text \<open>Two overlapping refreshes whose steps all work leave no dataset and no connection.\<close>

lemma overlap_result:
  "run overlap serving =
     \<lparr> shared = servingState\<lparr> xigDb := None, dbFile := None, nextInode := 2 \<rparr>,
       calls = [(baseEnv, Returned), (goodEnv, Returned), (goodEnv, Returned)] \<rparr>"
  by (simp add: overlap_def serving_def servingState_def deliver_def stepCall_def
      responseDone_def bodyDone_def writeInode_def downloadDone_def validationDone_def
      closeDone_def swapFiles_def catchBlock_def initializeDatabase_def openDone_def
      loadConfigCache_def maxRedirects_def Let_def opened_def updateXigDatabase_def)

lemma loading_reached: "run (take 2 startUp) \<lparr> shared = diskState, calls = [] \<rparr> = loading"
  by (simp add: startUp_def loading_def diskState_def initialState_def initializeXigModule_def
      initializeDatabase_def deliver_def stepCall_def openDone_def loadConfigCache_def opened_def)

lemma busy_reached: "run [Updates goodEnv, Resumes 1] serving = busy"
  by (simp add: busy_def serving_def deliver_def stepCall_def responseDone_def
      updateXigDatabase_def)

subsection \<open>C2: what a failure of the file replacement leaves\<close>





subsection \<open>C3: no serialisation of refreshes\<close>

lemma refreshWorks_goodEnv: "refreshWorks goodEnv 2"
  by (simp add: refreshWorks_def)

text \<open>
  C3, amended. Only the cache load is guarded: \<^verbatim>\<open>loadConfigCache\<close> called while
  \<^verbatim>\<open>cacheLoadInProgress\<close> is set returns at once and changes nothing.
  \<^verbatim>\<open>updateXigDatabase\<close> has no guard: called in any state of the module, whatever
  calls are running and wherever they are, it starts a call of its own, and when that
  call goes on with no other call in between and its steps all work, it returns after
  it has put its own download in the place of the dataset file and opened it. The
  guard of the cache load has one effect on it: if a cache load is in progress, the
  new dataset is served with the snapshot that was published before.
\<close>

theorem every_trigger_runs_its_own_refresh:
  "(cacheLoadInProgress s \<longrightarrow> loadConfigCache e s = (Returned, s)) \<and>
   (refreshWorks e f \<longrightarrow>
      (\<exists>i s'. run (replicate 24 (Resumes (length (calls sys)))) (updateXigDatabase e sys)
           = \<lparr> shared = s', calls = calls sys @ [(e, Returned)] \<rparr> \<and>
         dbFile s' = Some (i, f) \<and> xigDb s' = Some (opened f True) \<and> tmpFile s' = None \<and>
         (cacheLoadInProgress (shared sys) \<longrightarrow> configCache s' = configCache (shared sys))))"
proof (intro conjI impI)
  assume "cacheLoadInProgress s"
  then show "loadConfigCache e s = (Returned, s)" by (simp add: loadConfigCache_def)
next
  assume w: "refreshWorks e f"
  let ?sys = "updateXigDatabase e sys"
  let ?i = "length (calls sys)"
  from refresh_works[OF w, of "shared sys"] obtain i s' where
    u: "updateAlone e (shared sys) = (Returned, s')" and
    r: "dbFile s' = Some (i, f)" "xigDb s' = Some (opened f True)" "tmpFile s' = None"
      "cacheLoadInProgress (shared sys) \<longrightarrow> configCache s' = configCache (shared sys)"
    by blast
  have "run (replicate 24 (Resumes ?i)) ?sys
      = \<lparr> shared = s', calls = (calls ?sys)[?i := (e, Returned)] \<rparr>"
    using u by (intro run_alone[where p = "Downloading 0"]) (simp_all add: updateAlone_def)
  then have "run (replicate 24 (Resumes ?i)) ?sys
      = \<lparr> shared = s', calls = calls sys @ [(e, Returned)] \<rparr>" by simp
  with r show "\<exists>i s'. run (replicate 24 (Resumes ?i)) ?sys
           = \<lparr> shared = s', calls = calls sys @ [(e, Returned)] \<rparr> \<and>
         dbFile s' = Some (i, f) \<and> xigDb s' = Some (opened f True) \<and> tmpFile s' = None \<and>
         (cacheLoadInProgress (shared sys) \<longrightarrow> configCache s' = configCache (shared sys))"
    by blast
qed

text \<open>
  The theorem at work. While the first refresh of the serving module streams its
  body, a second call is made: it returns with its own download installed and opened,
  and the first call is where it was. While the first cache load of the module is in
  progress, a refresh is called: it installs and opens its download, and the
  snapshot stays the initial one. And a cache load asked for while one is in progress
  does nothing.
\<close>

theorem every_trigger_runs_its_own_refresh_witness:
  "loadConfigCache goodEnv (shared loading) = (Returned, shared loading) \<and>
   refreshWorks goodEnv 2 \<and>
   run [Updates goodEnv, Resumes 1] serving = busy \<and>
   (\<exists>i s'. run (replicate 24 (Resumes 2)) (updateXigDatabase goodEnv busy)
        = \<lparr> shared = s', calls = [(baseEnv, Returned), (goodEnv, Streaming (Finished 2) 1),
                                (goodEnv, Returned)] \<rparr> \<and>
      dbFile s' = Some (i, 2) \<and> xigDb s' = Some (opened 2 True) \<and> tmpFile s' = None) \<and>
   run (take 2 startUp) \<lparr> shared = diskState, calls = [] \<rparr> = loading \<and>
   (\<exists>i s'. run (replicate 24 (Resumes 1)) (updateXigDatabase goodEnv loading)
        = \<lparr> shared = s', calls = [(baseEnv, Loading 0 [] (opened 1 True)),
                                (goodEnv, Returned)] \<rparr> \<and>
      dbFile s' = Some (i, 2) \<and> xigDb s' = Some (opened 2 True) \<and> configCache s' = initialCache)"
proof -
  note t = every_trigger_runs_its_own_refresh[where s = "shared loading"
      and e = goodEnv and sys = busy and f = 2]
  note t' = every_trigger_runs_its_own_refresh[where s = "shared loading"
      and e = goodEnv and sys = loading and f = 2]
  have l: "length (calls busy) = 2"
    "calls busy @ [(goodEnv, Returned)]
       = [(baseEnv, Returned), (goodEnv, Streaming (Finished 2) 1), (goodEnv, Returned)]"
    by (simp_all add: busy_def)
  have l': "length (calls loading) = 1"
    "calls loading @ [(goodEnv, Returned)]
       = [(baseEnv, Loading 0 [] (opened 1 True)), (goodEnv, Returned)]"
    by (simp_all add: loading_def)
  have g: "cacheLoadInProgress (shared loading)" "configCache (shared loading) = initialCache"
    by (simp_all add: loading_def diskState_def initialState_def)
  from t g(1) have 1: "loadConfigCache goodEnv (shared loading) = (Returned, shared loading)"
    by blast
  from t refreshWorks_goodEnv have "\<exists>i s'.
      run (replicate 24 (Resumes (length (calls busy)))) (updateXigDatabase goodEnv busy)
        = \<lparr> shared = s', calls = calls busy @ [(goodEnv, Returned)] \<rparr> \<and>
      dbFile s' = Some (i, 2) \<and> xigDb s' = Some (opened 2 True) \<and> tmpFile s' = None"
    by blast
  then have 2: "\<exists>i s'. run (replicate 24 (Resumes 2)) (updateXigDatabase goodEnv busy)
        = \<lparr> shared = s', calls = [(baseEnv, Returned), (goodEnv, Streaming (Finished 2) 1),
                                (goodEnv, Returned)] \<rparr> \<and>
      dbFile s' = Some (i, 2) \<and> xigDb s' = Some (opened 2 True) \<and> tmpFile s' = None"
    unfolding l .
  from t' refreshWorks_goodEnv g have "\<exists>i s'.
      run (replicate 24 (Resumes (length (calls loading)))) (updateXigDatabase goodEnv loading)
        = \<lparr> shared = s', calls = calls loading @ [(goodEnv, Returned)] \<rparr> \<and>
      dbFile s' = Some (i, 2) \<and> xigDb s' = Some (opened 2 True) \<and> configCache s' = initialCache"
    by auto
  then have 3: "\<exists>i s'. run (replicate 24 (Resumes 1)) (updateXigDatabase goodEnv loading)
        = \<lparr> shared = s', calls = [(baseEnv, Loading 0 [] (opened 1 True)),
                                (goodEnv, Returned)] \<rparr> \<and>
      dbFile s' = Some (i, 2) \<and> xigDb s' = Some (opened 2 True) \<and> configCache s' = initialCache"
    unfolding l' .
  show ?thesis
    using 1 2 3 busy_reached loading_reached refreshWorks_goodEnv by (intro conjI)
qed

text \<open>
  The claim C3 as it is written fails. The module is initialised with the dataset 1 on disk and
  serves it. Two refreshes are called, the second while the first streams its body,
  and every step of both works. The second call is no no-op: its response empties the
  temporary file that the first call has filled, and its \<^verbatim>\<open>close\<close> callback drops
  the connection that the first call has just opened and deletes the dataset file
  that the first call has just put in place. Both calls return, and the module has no
  dataset file and no connection.
\<close>

theorem second_trigger_runs_a_second_refresh:
  "run startUp \<lparr> shared = diskState, calls = [] \<rparr> = serving \<and>
   tmpFile (shared (run (take 4 overlap) serving)) = Some (1, 2) \<and>
   tmpFile (shared (run (take 5 overlap) serving)) = Some (1, 0) \<and>
   dbFile (shared (run (take 9 overlap) serving)) = Some (1, 2) \<and>
   xigDb (shared (run (take 9 overlap) serving)) = Some (opened 2 True) \<and>
   calls (run overlap serving)
     = [(baseEnv, Returned), (goodEnv, Returned), (goodEnv, Returned)] \<and>
   dbFile (shared (run overlap serving)) = None \<and> xigDb (shared (run overlap serving)) = None"
proof -
  have 4: "tmpFile (shared (run (take 4 overlap) serving)) = Some (1, 2)"
    by (simp add: overlap_def serving_def servingState_def deliver_def stepCall_def
      responseDone_def bodyDone_def writeInode_def downloadDone_def updateXigDatabase_def)
  have 5: "tmpFile (shared (run (take 5 overlap) serving)) = Some (1, 0)"
    by (simp add: overlap_def serving_def servingState_def deliver_def stepCall_def
      responseDone_def bodyDone_def writeInode_def downloadDone_def updateXigDatabase_def)
  have 9: "dbFile (shared (run (take 9 overlap) serving)) = Some (1, 2) \<and>
      xigDb (shared (run (take 9 overlap) serving)) = Some (opened 2 True)"
    by (simp add: overlap_def serving_def servingState_def deliver_def stepCall_def
      responseDone_def bodyDone_def writeInode_def downloadDone_def validationDone_def
      closeDone_def swapFiles_def catchBlock_def initializeDatabase_def Let_def opened_def
      updateXigDatabase_def)
  show ?thesis
    using 4 5 9 by (simp add: startUp_serving overlap_result)
qed

subsection \<open>C7: a download that fails\<close>

text \<open>
  Failures that settle do what the claim says when a connection is open and the
  temporary file can be removed: the call returns, no temporary file is left, and the
  connection, the dataset file and the snapshot are the ones from before.
\<close>

lemma writeInode_same [simp]: "writeInode i f (Some (i, c)) = Some (i, f)"
  by (simp add: writeInode_def)

lemma refused_download_alone:
  assumes "xigDb s \<noteq> None" "tmpFile s = None"
    "responses e 0 = BadStatus \<or> responses e 0 = RequestError \<or> responses e 0 = RequestTimeout"
  shows "updateAlone e s = (Returned, s)"
  using assms
  by (auto simp: updateAlone_def settle_numeral stepCall_def responseDone_def catchBlock_def
      Let_def tmpFile_None_update)

lemma too_many_redirects_alone:
  assumes "xigDb s \<noteq> None" "tmpFile s = None" "\<forall>k\<le>maxRedirects. responses e k = Redirect"
  shows "updateAlone e s = (Returned, s)"
proof -
  have r: "responses e 0 = Redirect" "responses e 1 = Redirect" "responses e 2 = Redirect"
    "responses e 3 = Redirect" "responses e 4 = Redirect" "responses e 5 = Redirect"
    using assms(3) by (simp_all add: maxRedirects_def)
  have "settle 6 e (Downloading 0) s = (Returned, s)"
    using assms(1,2) r
    by (auto simp: numeral_eq_Suc stepCall_def responseDone_def maxRedirects_def catchBlock_def
        Let_def tmpFile_None_update)
  from settle_more[OF this] show ?thesis by (simp add: updateAlone_def)
qed

lemma broken_body_alone:
  assumes "xigDb s \<noteq> None" "tmpFile s = None" "unlinkTmpOk e" "responses e 0 = Ok200 b"
    "b = StreamError \<or> b = SocketError \<or> b = BodyTimeout"
  shows "updateAlone e s = (Returned, s\<lparr> nextInode := nextInode s + 1 \<rparr>)"
proof -
  have "settle 2 e (Downloading 0) s = (Returned, s\<lparr> nextInode := nextInode s + 1 \<rparr>)"
    using assms
    by (auto simp: numeral_eq_Suc stepCall_def responseDone_def bodyDone_def catchBlock_def
        Let_def)
  from settle_more[OF this] show ?thesis by (simp add: updateAlone_def)
qed

lemma failed_validation_alone:
  assumes "xigDb s \<noteq> None" "tmpFile s = None" "unlinkTmpOk e"
    "responses e 0 = Ok200 (Finished f)" "\<not> validates e f"
    "\<forall>c. dbFile s \<noteq> Some (nextInode s, c)"
  shows "updateAlone e s = (Returned, s\<lparr> nextInode := nextInode s + 1 \<rparr>)"
proof -
  have w: "writeInode (nextInode s) f (dbFile s) = dbFile s"
    using assms(6) by (auto simp: writeInode_def split: option.splits)
  have "settle 3 e (Downloading 0) s = (Returned, s\<lparr> nextInode := nextInode s + 1 \<rparr>)"
    using assms(1-5)
    by (auto simp: numeral_eq_Suc stepCall_def responseDone_def bodyDone_def downloadDone_def
        validationDone_def catchBlock_def Let_def w writeInode_same)
  from settle_more[OF this] show ?thesis by (simp add: updateAlone_def)
qed

lemma aborted_alone:
  assumes "responses e 0 = Ok200 Aborted"
  shows "updateAlone e s =
     (NeverSettles,
      case tmpFile s of
        None \<Rightarrow> s\<lparr> tmpFile := Some (nextInode s, 0), nextInode := nextInode s + 1 \<rparr>
      | Some (i, c) \<Rightarrow> s\<lparr> tmpFile := Some (i, 0) \<rparr>)"
proof -
  have "settle 2 e (Downloading 0) s =
     (NeverSettles,
      case tmpFile s of
        None \<Rightarrow> s\<lparr> tmpFile := Some (nextInode s, 0), nextInode := nextInode s + 1 \<rparr>
      | Some (i, c) \<Rightarrow> s\<lparr> tmpFile := Some (i, 0) \<rparr>)"
    using assms
    by (auto simp: numeral_eq_Suc stepCall_def responseDone_def bodyDone_def split: option.splits)
  from settle_more[OF this] show ?thesis by (simp add: updateAlone_def)
qed

text \<open>
  C7. The claim says that a refresh whose download fails returns to its caller with
  the temporary file removed. The code does not when the download is answered with
  status 200 and the server closes the connection before the body is complete: the
  call then never comes to an end. Run alone, it stops at a promise that never
  settles, with the temporary file it has created or emptied still there and nothing
  else changed; and among other calls it stays there whatever happens afterwards. It
  neither returns nor throws, and its \<^verbatim>\<open>catch\<close> block, which would remove the
  temporary file, never runs.
\<close>

theorem aborted_download_never_settles:
  assumes "responses e 0 = Ok200 Aborted"
  shows "updateAlone e s =
       (NeverSettles,
        case tmpFile s of
          None \<Rightarrow> s\<lparr> tmpFile := Some (nextInode s, 0), nextInode := nextInode s + 1 \<rparr>
        | Some (i, c) \<Rightarrow> s\<lparr> tmpFile := Some (i, 0) \<rparr>) \<and>
     calls (run (Resumes (length (calls sys)) # Resumes (length (calls sys)) # evs)
              (updateXigDatabase e sys)) ! length (calls sys) = (e, NeverSettles)"
proof -
  note u = aborted_alone[OF assms, of s]
  let ?i = "length (calls sys)"
  let ?sys = "updateXigDatabase e sys"
  obtain s2 where two: "settle 2 e (Downloading 0) (shared ?sys) = (NeverSettles, s2)"
    using assms
    by (cases "tmpFile (shared sys)")
       (auto simp: numeral_eq_Suc stepCall_def responseDone_def bodyDone_def)
  have "run (replicate 2 (Resumes ?i)) ?sys
      = \<lparr> shared = s2, calls = (calls ?sys)[?i := (e, NeverSettles)] \<rparr>"
    using two by (intro run_alone[where p = "Downloading 0"]) simp_all
  then have r2: "run [Resumes ?i, Resumes ?i] ?sys
      = \<lparr> shared = s2, calls = calls sys @ [(e, NeverSettles)] \<rparr>"
    by (simp add: numeral_eq_Suc)
  let ?sys2 = "\<lparr> shared = s2, calls = calls sys @ [(e, NeverSettles)] \<rparr>"
  have "calls (run evs ?sys2) ! ?i = (e, NeverSettles)"
    using run_stuck[where sys = ?sys2 and i = ?i and e = e and p = NeverSettles and evs = evs]
    by (simp add: stepCall_def)
  moreover have "run (Resumes ?i # Resumes ?i # evs) ?sys = run evs ?sys2"
    using r2 run_append[of "[Resumes ?i, Resumes ?i]" evs ?sys] by simp
  ultimately show ?thesis using u by simp
qed

text \<open>
  The serving module with such a download: the call of \<^verbatim>\<open>updateXigDatabase\<close> leaves
  the empty temporary file and never ends, also when a refresh that works is called
  and runs after it.
\<close>

theorem aborted_download_never_settles_witness:
  "updateAlone slowEnv servingState
     = (NeverSettles, servingState\<lparr> tmpFile := Some (1, 0), nextInode := 2 \<rparr>) \<and>
   calls (run (Resumes 1 # Resumes 1 # Updates goodEnv # replicate 24 (Resumes 2))
            (updateXigDatabase slowEnv serving)) ! 1 = (slowEnv, NeverSettles)"
proof -
  have "length (calls serving) = 1" by (simp add: serving_def)
  then show ?thesis
    using aborted_download_never_settles[where e = slowEnv and s = servingState
        and sys = serving and evs = "Updates goodEnv # replicate 24 (Resumes 2)"]
    by simp
qed

subsection \<open>C8: only complete snapshots are published\<close>





end
